theory Spec2Isabelle
  imports Complex_Main "HOL-Library.Sublist" "HOL-Library.Log_Nat"
begin

section \<open>Python values and the operations the script applies to them\<close>

text \<open>
  The script handles the values that \<^verbatim>\<open>response.json()\<close> produces: \<^verbatim>\<open>None\<close>, booleans,
  integers, floats, strings, lists and dictionaries with string keys. A dictionary is kept
  as an association list; a lookup takes the first entry of a key. A float is given by
  its value, a rational; arithmetic on floats rounds to binary64 (see below), and the
  infinities and NaN are left out. Strings are lists of characters with codes below 256.
\<close>

datatype pyval =
    PNone
  | PBool bool
  | PInt int
  | PFloat rat
  | PStr string
  | PList "pyval list"
  | PDict "(string \<times> pyval) list"

datatype py_error =
    ValueError
  | KeyError
  | TypeError
  | AttributeError
  | IndexError
  | OverflowError
  | UnboundLocalError
  | FileNotFoundError
  | RequestException

text \<open>\<^verbatim>\<open>sub in s\<close> on strings: \<^verbatim>\<open>sub\<close> occurs in \<^verbatim>\<open>s\<close> as a contiguous block.\<close>

fun py_contains :: "string \<Rightarrow> string \<Rightarrow> bool" where
  "py_contains sub [] = (sub = [])"
| "py_contains sub (c # cs) = (prefix sub (c # cs) \<or> py_contains sub cs)"

text \<open>\<^verbatim>\<open>v[k]\<close> with a string key: only a dictionary can be subscripted by a string.\<close>

definition py_subscript :: "pyval \<Rightarrow> string \<Rightarrow> py_error + pyval" where
  "py_subscript v k =
     (case v of
        PDict kvs \<Rightarrow> (case map_of kvs k of None \<Rightarrow> Inl KeyError | Some x \<Rightarrow> Inr x)
      | _ \<Rightarrow> Inl TypeError)"

text \<open>\<^verbatim>\<open>v.get(k, dflt)\<close>: only a dictionary has the method.\<close>

definition py_get :: "pyval \<Rightarrow> string \<Rightarrow> pyval \<Rightarrow> py_error + pyval" where
  "py_get v k dflt =
     (case v of
        PDict kvs \<Rightarrow> (case map_of kvs k of None \<Rightarrow> Inr dflt | Some x \<Rightarrow> Inr x)
      | _ \<Rightarrow> Inl AttributeError)"

text \<open>
  \<^verbatim>\<open>k in v\<close> with a string \<^verbatim>\<open>k\<close>: a key of a dictionary, a substring of a string, an
  element of a list; the other values are not containers.
\<close>

definition py_in :: "string \<Rightarrow> pyval \<Rightarrow> py_error + bool" where
  "py_in k v =
     (case v of
        PDict kvs \<Rightarrow> Inr (map_of kvs k \<noteq> None)
      | PStr s \<Rightarrow> Inr (py_contains k s)
      | PList xs \<Rightarrow> Inr (PStr k \<in> set xs)
      | _ \<Rightarrow> Inl TypeError)"

text \<open>Truth value of a value in a condition (\<^verbatim>\<open>if v\<close>, \<^verbatim>\<open>not v\<close>).\<close>

definition py_truthy :: "pyval \<Rightarrow> bool" where
  "py_truthy v =
     (case v of
        PNone \<Rightarrow> False
      | PBool b \<Rightarrow> b
      | PInt n \<Rightarrow> n \<noteq> 0
      | PFloat r \<Rightarrow> r \<noteq> 0
      | PStr s \<Rightarrow> s \<noteq> []
      | PList xs \<Rightarrow> xs \<noteq> []
      | PDict kvs \<Rightarrow> kvs \<noteq> [])"

text \<open>The number a value stands for in arithmetic and in \<^verbatim>\<open>==\<close> with a number.\<close>

definition py_num :: "pyval \<Rightarrow> rat option" where
  "py_num v =
     (case v of
        PBool b \<Rightarrow> Some (if b then 1 else 0)
      | PInt n \<Rightarrow> Some (of_int n)
      | PFloat r \<Rightarrow> Some r
      | _ \<Rightarrow> None)"

text \<open>\<^verbatim>\<open>v == n\<close> for a number \<^verbatim>\<open>n\<close> (\<^verbatim>\<open>True\<close> is the number 1).\<close>

definition py_eq_num :: "pyval \<Rightarrow> rat \<Rightarrow> bool" where
  "py_eq_num v n = (py_num v = Some n)"

subsection \<open>Floats\<close>

text \<open>
  Python's floats are IEEE 754 binary64 numbers, and every operation on them rounds its
  exact result to the nearest such number, ties to the one with an even significand.
  \<open>binade x\<close> is the exponent \<open>e\<close> with \<open>2 powi e \<le> x < 2 powi (e + 1)\<close> for a positive
  \<open>x\<close>; the binary64 numbers around \<open>x\<close> are the multiples of \<open>quantum x\<close>, 53
  significant bits wide, with the exponent held at -1022 for the subnormal numbers.
\<close>

definition round_half_even :: "rat \<Rightarrow> int" where
  "round_half_even x =
     (let f = \<lfloor>x\<rfloor>; d = x - of_int f
      in if d < 1 / 2 then f else if 1 / 2 < d then f + 1 else if even f then f else f + 1)"

definition binade :: "rat \<Rightarrow> int" where
  "binade x = (if 1 \<le> x then bitlen \<lfloor>x\<rfloor> - 1 else - bitlen (\<lceil>1 / x\<rceil> - 1))"

definition quantum :: "rat \<Rightarrow> rat" where
  "quantum x = 2 powi (max (binade \<bar>x\<bar>) (- 1022) - 52)"

definition binary64 :: "rat \<Rightarrow> rat" where
  "binary64 x = (if x = 0 then 0 else of_int (round_half_even (x / quantum x)) * quantum x)"

text \<open>
  The conversion of an \<^verbatim>\<open>int\<close> to a float, as \<^verbatim>\<open>float(n)\<close> and the mixed arithmetic of
  \<^verbatim>\<open>n / 1e5\<close> do it: rounded the same way, and an \<^verbatim>\<open>OverflowError\<close> when the rounded
  value does not fit below \<open>2 ^ 1024\<close>.
\<close>

definition float_of_int :: "int \<Rightarrow> py_error + rat" where
  "float_of_int n =
     (let x = binary64 (of_int n)
      in if 2 ^ 1024 \<le> \<bar>x\<bar> then Inl OverflowError else Inr x)"

text \<open>
  \<^verbatim>\<open>v / 1e5\<close>, the conversion to NIM: the float division of \<^verbatim>\<open>v\<close>, converted to a float
  first when it is an \<^verbatim>\<open>int\<close> or a \<^verbatim>\<open>bool\<close>, by 100000.
\<close>

definition py_div_1e5 :: "pyval \<Rightarrow> py_error + rat" where
  "py_div_1e5 v =
     (case v of
        PBool b \<Rightarrow> Inr (binary64 ((if b then 1 else 0) / 100000))
      | PInt n \<Rightarrow>
          (case float_of_int n of
             Inl err \<Rightarrow> Inl err
           | Inr x \<Rightarrow> Inr (binary64 (x / 100000)))
      | PFloat r \<Rightarrow> Inr (binary64 (r / 100000))
      | _ \<Rightarrow> Inl TypeError)"

text \<open>\<^verbatim>\<open>s.strip()\<close>: whitespace removed at both ends.\<close>

definition py_isspace :: "char \<Rightarrow> bool" where
  "py_isspace c =
     (let n = (of_char c :: nat)
      in (9 \<le> n \<and> n \<le> 13) \<or> (28 \<le> n \<and> n \<le> 32) \<or> n = 133 \<or> n = 160)"

definition py_strip :: "string \<Rightarrow> string" where
  "py_strip s = rev (dropWhile py_isspace (rev (dropWhile py_isspace s)))"

text \<open>\<^verbatim>\<open>s.split(sep)\<close> for a non-empty separator, the pieces from left to right.\<close>

function py_split_from :: "string \<Rightarrow> string \<Rightarrow> string \<Rightarrow> string list" where
  "py_split_from sep acc [] = [rev acc]"
| "py_split_from sep acc (c # cs) =
     (if sep \<noteq> [] \<and> prefix sep (c # cs)
      then rev acc # py_split_from sep [] (drop (length sep - 1) cs)
      else py_split_from sep (c # acc) cs)"
  by pat_completeness auto
termination
  by (relation "measure (\<lambda>(sep, acc, s). length s)") auto

definition py_split :: "string \<Rightarrow> string \<Rightarrow> string list" where
  "py_split sep s = py_split_from sep [] s"

text \<open>\<^verbatim>\<open>xs[i]\<close> for \<^verbatim>\<open>i \<ge> 0\<close>.\<close>

definition py_index :: "'a list \<Rightarrow> nat \<Rightarrow> py_error + 'a" where
  "py_index xs i = (if i < length xs then Inr (xs ! i) else Inl IndexError)"

section \<open>The world outside the script, and its own state\<close>

text \<open>
  One HTTP POST to the node either gets no response (connection refused, timeout), or a
  response with a status code and a body that is JSON or not.
\<close>

datatype http_body = NotJson | Json pyval

datatype http_outcome = NoResponse | Response nat http_body

text \<open>
  The environment is fixed for a run: what the node answers to the \<open>n\<close>-th POST it is sent
  (given the method and the parameters), whether the \<open>n\<close>-th POST to the faucet fails in
  transport, the key files as \<^verbatim>\<open>readlines()\<close> returns them, the network name, and Python's
  \<^verbatim>\<open>float()\<close> on strings, which the metrics library applies to what a gauge is set to.
\<close>

record env =
  node :: "nat \<Rightarrow> string \<Rightarrow> pyval list \<Rightarrow> http_outcome"
  faucet_raises :: "nat \<Rightarrow> bool"
  files :: "string \<Rightarrow> string list option"
  NIMIQ_NETWORK :: string
  float_of_str :: "string \<Rightarrow> rat option"

text \<open>
  The state the script changes: the number of POSTs sent to the node so far, the addresses
  posted to the faucet, and the six gauges. Logging and sleeping change none of it, so
  they are left out; of a log line only the exceptions of evaluating its arguments are
  kept. The start of the metrics server and \<^verbatim>\<open>get_wallet_address\<close>, which nothing calls,
  are left out as well.
\<close>

record state =
  clock :: nat
  faucet_posts :: "pyval list"
  ACTIVATED_AMOUNT :: "pyval \<Rightarrow> rat"
  VALIDATOR_ACTIVE :: rat
  EPOCH_NUMBER :: rat
  CURRENT_BALANCE :: rat
  TOTAL_STAKE :: rat
  CURRENT_STAKERS :: rat

text \<open>\<^verbatim>\<open>float(v)\<close>, as \<^verbatim>\<open>Gauge.set\<close> applies it to its argument.\<close>

definition py_float :: "env \<Rightarrow> pyval \<Rightarrow> py_error + rat" where
  "py_float e v =
     (case v of
        PNone \<Rightarrow> Inl TypeError
      | PBool b \<Rightarrow> Inr (if b then 1 else 0)
      | PInt n \<Rightarrow> float_of_int n
      | PFloat r \<Rightarrow> Inr r
      | PStr s \<Rightarrow> (case float_of_str e s of None \<Rightarrow> Inl ValueError | Some r \<Rightarrow> Inr r)
      | PList xs \<Rightarrow> Inl TypeError
      | PDict kvs \<Rightarrow> Inl TypeError)"

section \<open>The RPC client\<close>

text \<open>
  \<^verbatim>\<open>nimiq_request(method, params, retries, delay)\<close>; \<^verbatim>\<open>params\<close> is the list sent, empty
  for \<^verbatim>\<open>None\<close>. An attempt that gets no response, a status from 400 to 599
  (\<^verbatim>\<open>raise_for_status\<close>) or a body that is not JSON (\<^verbatim>\<open>response.json()\<close>, whose error is a
  \<^verbatim>\<open>RequestException\<close> since requests 2.27) raises a \<^verbatim>\<open>RequestException\<close>, which costs
  one retry. A JSON body is asked for its \<^verbatim>\<open>result\<close> with the default \<^verbatim>\<open>{}\<close>; the
  \<^verbatim>\<open>ValueError\<close> for a \<^verbatim>\<open>None\<close> result and the \<^verbatim>\<open>AttributeError\<close> of a body without
  \<^verbatim>\<open>get\<close> are not caught. With no retry left the function returns \<^verbatim>\<open>None\<close>.
\<close>

function nimiq_request ::
  "env \<Rightarrow> string \<Rightarrow> pyval list \<Rightarrow> int \<Rightarrow> state \<Rightarrow> (py_error + pyval) \<times> state" where
  "nimiq_request e method params retries s =
     (if retries > 0 then
        (case node e (clock s) method params of
           NoResponse \<Rightarrow> nimiq_request e method params (retries - 1) (s\<lparr>clock := clock s + 1\<rparr>)
         | Response status body \<Rightarrow>
             if 400 \<le> status \<and> status < 600
             then nimiq_request e method params (retries - 1) (s\<lparr>clock := clock s + 1\<rparr>)
             else (case body of
                     NotJson \<Rightarrow>
                       nimiq_request e method params (retries - 1) (s\<lparr>clock := clock s + 1\<rparr>)
                   | Json j \<Rightarrow>
                       (case py_get j ''result'' (PDict []) of
                          Inl err \<Rightarrow> (Inl err, s\<lparr>clock := clock s + 1\<rparr>)
                        | Inr result \<Rightarrow>
                            if result = PNone
                            then (Inl ValueError, s\<lparr>clock := clock s + 1\<rparr>)
                            else (Inr result, s\<lparr>clock := clock s + 1\<rparr>))))
      else (Inr PNone, s))"
  by pat_completeness auto
termination
  by (relation "measure (\<lambda>(e, method, params, retries, s). nat retries)") auto

declare nimiq_request.simps [simp del]

section \<open>Key files\<close>

text \<open>
  \<^verbatim>\<open>get_private_key(file_path)\<close>: the first line with the label gives the key, the text
  after the label up to its next occurrence, stripped. Without such a line the result is
  \<^verbatim>\<open>None\<close>. A file that cannot be opened raises.
\<close>

fun get_private_key_lines :: "string list \<Rightarrow> py_error + pyval" where
  "get_private_key_lines [] = Inr PNone"
| "get_private_key_lines (line # rest) =
     (if py_contains ''Private Key:'' line
      then (case py_index (py_split ''Private Key:'' line) 1 of
              Inl err \<Rightarrow> Inl err
            | Inr piece \<Rightarrow> Inr (PStr (py_strip piece)))
      else get_private_key_lines rest)"

definition get_private_key :: "env \<Rightarrow> string \<Rightarrow> py_error + pyval" where
  "get_private_key e file_path =
     (case files e file_path of
        None \<Rightarrow> Inl FileNotFoundError
      | Some lines \<Rightarrow> get_private_key_lines lines)"

text \<open>
  \<^verbatim>\<open>get_vote_key(file_path)\<close>: the loop visits every index \<^verbatim>\<open>i\<close>; at a line with the label
  it assigns \<^verbatim>\<open>lines[i+2].strip()\<close> to \<^verbatim>\<open>secret_key\<close>, which raises \<^verbatim>\<open>IndexError\<close> when
  \<^verbatim>\<open>i+2\<close> is out of range. \<^verbatim>\<open>secret_key\<close> has no value before the first assignment, so
  returning it then raises \<^verbatim>\<open>UnboundLocalError\<close>.
\<close>

fun get_vote_key_loop :: "string list \<Rightarrow> nat list \<Rightarrow> string option \<Rightarrow> py_error + string option" where
  "get_vote_key_loop lines [] secret_key = Inr secret_key"
| "get_vote_key_loop lines (i # rest) secret_key =
     (if py_contains ''Secret Key:'' (lines ! i)
      then (case py_index lines (i + 2) of
              Inl err \<Rightarrow> Inl err
            | Inr line \<Rightarrow> get_vote_key_loop lines rest (Some (py_strip line)))
      else get_vote_key_loop lines rest secret_key)"

definition get_vote_key_lines :: "string list \<Rightarrow> py_error + string" where
  "get_vote_key_lines lines =
     (case get_vote_key_loop lines [0..<length lines] None of
        Inl err \<Rightarrow> Inl err
      | Inr None \<Rightarrow> Inl UnboundLocalError
      | Inr (Some secret_key) \<Rightarrow> Inr secret_key)"

definition get_vote_key :: "env \<Rightarrow> string \<Rightarrow> py_error + string" where
  "get_vote_key e file_path =
     (case files e file_path of
        None \<Rightarrow> Inl FileNotFoundError
      | Some lines \<Rightarrow> get_vote_key_lines lines)"

section \<open>Queries and commands on the node\<close>

definition needs_funds :: "env \<Rightarrow> pyval \<Rightarrow> state \<Rightarrow> (py_error + bool) \<times> state" where
  "needs_funds e address s =
     (case nimiq_request e ''getAccountByAddress'' [address] 3 s of
        (Inl err, s1) \<Rightarrow> (Inl err, s1)
      | (Inr res, s1) \<Rightarrow>
          if res = PNone then (Inr False, s1)
          else (case py_get res ''data'' (PDict []) of
                  Inl err \<Rightarrow> (Inl err, s1)
                | Inr data \<Rightarrow>
                    if data = PNone then (Inr True, s1)
                    else (case py_get data ''balance'' (PInt 0) of
                            Inl err \<Rightarrow> (Inl err, s1)
                          | Inr balance \<Rightarrow>
                              if py_eq_num balance 0 then (Inr True, s1) else (Inr False, s1))))"

definition get_address :: "env \<Rightarrow> state \<Rightarrow> (py_error + pyval) \<times> state" where
  "get_address e s =
     (case nimiq_request e ''getAddress'' [] 3 s of
        (Inl err, s1) \<Rightarrow> (Inl err, s1)
      | (Inr res, s1) \<Rightarrow>
          if res = PNone then (Inr PNone, s1)
          else (case py_subscript res ''data'' of
                  Inl err \<Rightarrow> (Inl err, s1)
                | Inr data \<Rightarrow> (Inr data, s1)))"

text \<open>
  \<^verbatim>\<open>res['error']['message']\<close>, evaluated for a log line: only its exceptions matter.
\<close>

definition error_message :: "pyval \<Rightarrow> py_error + pyval" where
  "error_message res =
     (case py_subscript res ''error'' of
        Inl err \<Rightarrow> Inl err
      | Inr er \<Rightarrow> py_subscript er ''message'')"

text \<open>\<^verbatim>\<open>send_raw_tx(tx_hash)\<close> returns \<^verbatim>\<open>None\<close> on every path.\<close>

definition send_raw_tx :: "env \<Rightarrow> pyval \<Rightarrow> state \<Rightarrow> (py_error + unit) \<times> state" where
  "send_raw_tx e tx_hash s =
     (case nimiq_request e ''sendRawTransaction'' [tx_hash] 3 s of
        (Inl err, s1) \<Rightarrow> (Inl err, s1)
      | (Inr res, s1) \<Rightarrow>
          if res = PNone then (Inr (), s1)
          else (case py_in ''error'' res of
                  Inl err \<Rightarrow> (Inl err, s1)
                | Inr has_error \<Rightarrow>
                    if has_error
                    then (case error_message res of
                            Inl err \<Rightarrow> (Inl err, s1)
                          | Inr msg \<Rightarrow> (Inr (), s1))
                    else (Inr (), s1)))"

definition get_epoch_number :: "env \<Rightarrow> state \<Rightarrow> (py_error + unit) \<times> state" where
  "get_epoch_number e s =
     (case nimiq_request e ''getEpochNumber'' [] 3 s of
        (Inl err, s1) \<Rightarrow> (Inl err, s1)
      | (Inr res, s1) \<Rightarrow>
          if res = PNone then (Inr (), s1)
          else (case py_subscript res ''data'' of
                  Inl err \<Rightarrow> (Inl err, s1)
                | Inr data \<Rightarrow>
                    (case py_float e data of
                       Inl err \<Rightarrow> (Inl err, s1)
                     | Inr x \<Rightarrow> (Inr (), s1\<lparr>EPOCH_NUMBER := x\<rparr>))))"

definition is_validator_active :: "env \<Rightarrow> pyval \<Rightarrow> state \<Rightarrow> (py_error + bool) \<times> state" where
  "is_validator_active e address s =
     (case nimiq_request e ''getValidatorByAddress'' [address] 3 s of
        (Inl err, s1) \<Rightarrow> (Inl err, s1)
      | (Inr result, s1) \<Rightarrow>
          if py_truthy result
          then (case py_in ''data'' result of
                  Inl err \<Rightarrow> (Inl err, s1)
                | Inr has_data \<Rightarrow>
                    if has_data
                    then (case py_subscript result ''data'' of
                            Inl err \<Rightarrow> (Inl err, s1)
                          | Inr data \<Rightarrow>
                              (case py_subscript data ''retired'' of
                                 Inl err \<Rightarrow> (Inl err, s1)
                               | Inr retired \<Rightarrow>
                                   (Inr (\<not> py_truthy retired),
                                    s1\<lparr>VALIDATOR_ACTIVE := (if \<not> py_truthy retired then 1 else 0)\<rparr>)))
                    else (Inr False, s1))
          else (Inr False, s1))"

definition get_balance :: "env \<Rightarrow> pyval \<Rightarrow> state \<Rightarrow> (py_error + pyval) \<times> state" where
  "get_balance e address s =
     (case nimiq_request e ''getAccountByAddress'' [address] 3 s of
        (Inl err, s1) \<Rightarrow> (Inl err, s1)
      | (Inr res, s1) \<Rightarrow>
          if res = PNone then (Inr PNone, s1)
          else (case py_in ''error'' res of
                  Inl err \<Rightarrow> (Inl err, s1)
                | Inr has_error \<Rightarrow>
                    if has_error
                    then (case error_message res of
                            Inl err \<Rightarrow> (Inl err, s1)
                          | Inr msg \<Rightarrow> (Inr PNone, s1))
                    else (case py_subscript res ''data'' of
                            Inl err \<Rightarrow> (Inl err, s1)
                          | Inr data \<Rightarrow>
                              (case py_subscript data ''balance'' of
                                 Inl err \<Rightarrow> (Inl err, s1)
                               | Inr balance \<Rightarrow> (Inr balance, s1)))))"

text \<open>\<^verbatim>\<open>set_balance_prometheus(address)\<close> returns the balance in NIM, or \<^verbatim>\<open>None\<close>.\<close>

definition set_balance_prometheus :: "env \<Rightarrow> pyval \<Rightarrow> state \<Rightarrow> (py_error + pyval) \<times> state" where
  "set_balance_prometheus e address s =
     (case get_balance e address s of
        (Inl err, s1) \<Rightarrow> (Inl err, s1)
      | (Inr balance, s1) \<Rightarrow>
          if balance \<noteq> PNone
          then (case py_div_1e5 balance of
                  Inl err \<Rightarrow> (Inl err, s1)
                | Inr nim \<Rightarrow> (Inr (PFloat nim), s1\<lparr>CURRENT_BALANCE := nim\<rparr>))
          else (Inr PNone, s1))"

text \<open>
  \<^verbatim>\<open>get_stake_by_address(address)\<close>: the three local variables are assigned only in the
  first branch, and returned after both.
\<close>

definition get_stake_by_address ::
  "env \<Rightarrow> pyval \<Rightarrow> state \<Rightarrow> (py_error + (pyval \<times> pyval \<times> pyval)) \<times> state" where
  "get_stake_by_address e address s =
     (case nimiq_request e ''getValidatorByAddress'' [address] 3 s of
        (Inl err, s1) \<Rightarrow> (Inl err, s1)
      | (Inr res, s1) \<Rightarrow>
          (case (if res \<noteq> PNone then py_in ''data'' res else Inr False) of
             Inl err \<Rightarrow> (Inl err, s1)
           | Inr has_data \<Rightarrow>
               if has_data
               then (case py_subscript res ''data'' of
                       Inl err \<Rightarrow> (Inl err, s1)
                     | Inr data \<Rightarrow>
                   (case py_get data ''balance'' (PInt 0) of
                      Inl err \<Rightarrow> (Inl err, s1)
                    | Inr raw \<Rightarrow>
                   (case py_div_1e5 raw of
                      Inl err \<Rightarrow> (Inl err, s1)
                    | Inr balance \<Rightarrow>
                   (case py_get data ''numStakers'' (PInt 0) of
                      Inl err \<Rightarrow> (Inl err, s1)
                    | Inr num_stakers \<Rightarrow>
                   (case py_get data ''retired'' (PBool False) of
                      Inl err \<Rightarrow> (Inl err, s1)
                    | Inr retired \<Rightarrow>
                   (case py_float e num_stakers of
                      Inl err \<Rightarrow> (Inl err, s1\<lparr>TOTAL_STAKE := balance\<rparr>)
                    | Inr n \<Rightarrow>
                        (Inr (PFloat balance, num_stakers, retired),
                         s1\<lparr>TOTAL_STAKE := balance, CURRENT_STAKERS := n\<rparr>)))))))
               else (Inl UnboundLocalError, s1)))"

section \<open>The stake wait and the monitoring loop\<close>

text \<open>
  One pass through the body of the loop of \<^verbatim>\<open>wait_for_enough_stake\<close>; the result says
  whether the pass ends in \<^verbatim>\<open>break\<close>.
\<close>

definition wait_for_enough_stake_iteration ::
  "env \<Rightarrow> pyval \<Rightarrow> state \<Rightarrow> (py_error + bool) \<times> state" where
  "wait_for_enough_stake_iteration e ADDRESS s =
     (case get_balance e ADDRESS s of
        (Inl err, s1) \<Rightarrow> (Inl err, s1)
      | (Inr balance, s1) \<Rightarrow>
          if balance \<noteq> PNone
          then (case py_div_1e5 balance of
                  Inl err \<Rightarrow> (Inl err, s1)
                | Inr nim \<Rightarrow> (Inr (nim \<ge> 100000), s1\<lparr>CURRENT_BALANCE := nim\<rparr>))
          else (Inr False, s1))"

partial_function (option) wait_for_enough_stake ::
  "env \<Rightarrow> pyval \<Rightarrow> state \<Rightarrow> ((py_error + unit) \<times> state) option" where
  "wait_for_enough_stake e ADDRESS s =
     (case wait_for_enough_stake_iteration e ADDRESS s of
        (Inl err, s1) \<Rightarrow> Some (Inl err, s1)
      | (Inr brk, s1) \<Rightarrow>
          if brk then Some (Inr (), s1) else wait_for_enough_stake e ADDRESS s1)"

text \<open>One pass through the body of the loop of \<^verbatim>\<open>monitor_active_validator\<close>.\<close>

definition monitor_active_validator_iteration ::
  "env \<Rightarrow> pyval \<Rightarrow> state \<Rightarrow> (py_error + bool) \<times> state" where
  "monitor_active_validator_iteration e address s =
     (case is_validator_active e address s of
        (Inl err, s1) \<Rightarrow> (Inl err, s1)
      | (Inr active, s1) \<Rightarrow>
          if \<not> active then (Inr True, s1)
          else (case get_epoch_number e s1 of
                  (Inl err, s2) \<Rightarrow> (Inl err, s2)
                | (Inr u, s2) \<Rightarrow>
              (case get_stake_by_address e address s2 of
                 (Inl err, s3) \<Rightarrow> (Inl err, s3)
               | (Inr stake, s3) \<Rightarrow>
              (case set_balance_prometheus e address s3 of
                 (Inl err, s4) \<Rightarrow> (Inl err, s4)
               | (Inr balance, s4) \<Rightarrow> (Inr False, s4)))))"

partial_function (option) monitor_active_validator ::
  "env \<Rightarrow> pyval \<Rightarrow> state \<Rightarrow> ((py_error + unit) \<times> state) option" where
  "monitor_active_validator e address s =
     (case monitor_active_validator_iteration e address s of
        (Inl err, s1) \<Rightarrow> Some (Inl err, s1)
      | (Inr brk, s1) \<Rightarrow>
          if brk then Some (Inr (), s1) else monitor_active_validator e address s1)"

text \<open>
  Both loops repeat a body that says whether it ends in \<^verbatim>\<open>break\<close>. \<open>loop_passes body s s'\<close>
  holds when the loop, entered in the state \<open>s\<close>, is at its head in the state \<open>s'\<close> after
  some passes, none of which broke or raised.
\<close>

inductive loop_passes :: "(state \<Rightarrow> (py_error + bool) \<times> state) \<Rightarrow> state \<Rightarrow> state \<Rightarrow> bool"
  for body :: "state \<Rightarrow> (py_error + bool) \<times> state" where
  passes_none: "loop_passes body s s"
| passes_more: "body s = (Inr False, s1) \<Longrightarrow> loop_passes body s1 s2 \<Longrightarrow> loop_passes body s s2"

section \<open>Activation\<close>

text \<open>
  The funding step of \<^verbatim>\<open>activate_validator\<close>: on the test network, an address that needs
  funds is posted to the faucet. The POST is not guarded: its transport failure raises.
\<close>

definition activate_validator_funding :: "env \<Rightarrow> pyval \<Rightarrow> state \<Rightarrow> (py_error + unit) \<times> state" where
  "activate_validator_funding e ADDRESS s =
     (if NIMIQ_NETWORK e = ''testnet''
      then (case needs_funds e ADDRESS s of
              (Inl err, s1) \<Rightarrow> (Inl err, s1)
            | (Inr need, s1) \<Rightarrow>
                if need
                then (if faucet_raises e (length (faucet_posts s1))
                      then (Inl RequestException, s1\<lparr>faucet_posts := faucet_posts s1 @ [ADDRESS]\<rparr>)
                      else (Inr (), s1\<lparr>faucet_posts := faucet_posts s1 @ [ADDRESS]\<rparr>))
                else (Inr (), s1))
      else (Inr (), s))"

text \<open>
  \<^verbatim>\<open>activate_validator(ADDRESS)\<close>: the three keys, the funding step, key import, unlock, the
  stake wait, the transaction and its submission, then the increment of the gauge of the
  address. The results of \<^verbatim>\<open>importRawKey\<close>, \<^verbatim>\<open>unlockAccount\<close> and \<^verbatim>\<open>send_raw_tx\<close> are
  not looked at.
\<close>

definition activate_validator ::
  "env \<Rightarrow> pyval \<Rightarrow> state \<Rightarrow> ((py_error + bool) \<times> state) option" where
  "activate_validator e ADDRESS s =
     (case get_private_key e ''/keys/signing_key.txt'' of
        Inl err \<Rightarrow> Some (Inl err, s)
      | Inr SIGKEY \<Rightarrow>
     (case get_vote_key e ''/keys/vote_key.txt'' of
        Inl err \<Rightarrow> Some (Inl err, s)
      | Inr VOTEKEY \<Rightarrow>
     (case get_private_key e ''/keys/address.txt'' of
        Inl err \<Rightarrow> Some (Inl err, s)
      | Inr ADDRESS_PRIVATE \<Rightarrow>
     (case activate_validator_funding e ADDRESS s of
        (Inl err, s1) \<Rightarrow> Some (Inl err, s1)
      | (Inr u1, s1) \<Rightarrow>
     (case nimiq_request e ''importRawKey'' [ADDRESS_PRIVATE, PStr []] 3 s1 of
        (Inl err, s2) \<Rightarrow> Some (Inl err, s2)
      | (Inr imported, s2) \<Rightarrow>
     (case nimiq_request e ''unlockAccount'' [ADDRESS, PStr [], PInt 0] 3 s2 of
        (Inl err, s3) \<Rightarrow> Some (Inl err, s3)
      | (Inr unlocked, s3) \<Rightarrow>
     (case wait_for_enough_stake e ADDRESS s3 of
        None \<Rightarrow> None
      | Some (Inl err, s4) \<Rightarrow> Some (Inl err, s4)
      | Some (Inr u4, s4) \<Rightarrow>
     (case nimiq_request e ''createNewValidatorTransaction''
             [ADDRESS, ADDRESS, SIGKEY, PStr VOTEKEY, ADDRESS, PStr [], PInt 500, PStr ''+0''] 3 s4 of
        (Inl err, s5) \<Rightarrow> Some (Inl err, s5)
      | (Inr result, s5) \<Rightarrow>
     (case py_get result ''data'' PNone of
        Inl err \<Rightarrow> Some (Inl err, s5)
      | Inr tx \<Rightarrow>
     (case send_raw_tx e tx s5 of
        (Inl err, s6) \<Rightarrow> Some (Inl err, s6)
      | (Inr u6, s6) \<Rightarrow>
          Some (Inr True,
                s6\<lparr>ACTIVATED_AMOUNT :=
                     (ACTIVATED_AMOUNT s6)
                       (ADDRESS := binary64 (ACTIVATED_AMOUNT s6 ADDRESS + 1))\<rparr>)))))))))))"

definition check_and_activate_validator ::
  "env \<Rightarrow> pyval \<Rightarrow> state \<Rightarrow> ((py_error + unit) \<times> state) option" where
  "check_and_activate_validator e address s =
     (case is_validator_active e address s of
        (Inl err, s1) \<Rightarrow> Some (Inl err, s1)
      | (Inr active, s1) \<Rightarrow>
          if active then monitor_active_validator e address s1
          else (case activate_validator e address s1 of
                  None \<Rightarrow> None
                | Some (Inl err, s2) \<Rightarrow> Some (Inl err, s2)
                | Some (Inr activated, s2) \<Rightarrow> Some (Inr (), s2)))"

section \<open>The consensus gate and the scheduler\<close>

text \<open>
  The test of \<^verbatim>\<open>check_consensus\<close> on what the RPC client returned:
  \<^verbatim>\<open>res is not None and res.get('data') == True\<close>.
\<close>

definition consensus_observed :: "pyval \<Rightarrow> py_error + bool" where
  "consensus_observed res =
     (if res \<noteq> PNone
      then (case py_get res ''data'' PNone of
              Inl err \<Rightarrow> Inl err
            | Inr data \<Rightarrow> Inr (py_eq_num data 1))
      else Inr False)"

text \<open>One pass through the body of the loop: the request, then the new value of the counter.\<close>

definition check_consensus_iteration ::
  "env \<Rightarrow> int \<Rightarrow> state \<Rightarrow> (py_error + pyval \<times> int) \<times> state" where
  "check_consensus_iteration e consensus_count s =
     (case nimiq_request e ''isConsensusEstablished'' [] 3 s of
        (Inl err, s1) \<Rightarrow> (Inl err, s1)
      | (Inr res, s1) \<Rightarrow>
          (case consensus_observed res of
             Inl err \<Rightarrow> (Inl err, s1)
           | Inr positive \<Rightarrow>
               if positive then (Inr (res, consensus_count + 1), s1) else (Inr (res, 0), s1)))"

partial_function (option) check_consensus_loop ::
  "env \<Rightarrow> int \<Rightarrow> state \<Rightarrow> ((py_error + bool) \<times> state) option" where
  "check_consensus_loop e consensus_count s =
     (if consensus_count < 3
      then (case check_consensus_iteration e consensus_count s of
              (Inl err, s1) \<Rightarrow> Some (Inl err, s1)
            | (Inr (res, consensus_count'), s1) \<Rightarrow> check_consensus_loop e consensus_count' s1)
      else Some (Inr True, s))"

definition check_consensus :: "env \<Rightarrow> state \<Rightarrow> ((py_error + bool) \<times> state) option" where
  "check_consensus e s = check_consensus_loop e 0 s"

text \<open>
  The loop of the main program, after \<^verbatim>\<open>get_address\<close>: it has no exit of its own, so it
  ends only with an exception.
\<close>

partial_function (option) main_loop ::
  "env \<Rightarrow> pyval \<Rightarrow> state \<Rightarrow> ((py_error + unit) \<times> state) option" where
  "main_loop e address s =
     (case check_consensus e s of
        None \<Rightarrow> None
      | Some (Inl err, s1) \<Rightarrow> Some (Inl err, s1)
      | Some (Inr established, s1) \<Rightarrow>
          if established
          then (case check_and_activate_validator e address s1 of
                  None \<Rightarrow> None
                | Some (Inl err, s2) \<Rightarrow> Some (Inl err, s2)
                | Some (Inr u, s2) \<Rightarrow> main_loop e address s2)
          else main_loop e address s1)"

definition main :: "env \<Rightarrow> state \<Rightarrow> ((py_error + unit) \<times> state) option" where
  "main e s =
     (case get_address e s of
        (Inl err, s1) \<Rightarrow> Some (Inl err, s1)
      | (Inr address, s1) \<Rightarrow> main_loop e address s1)"


section \<open>Inputs named in the properties\<close>

text \<open>
  An attempt fails at the transport or status level when \<^verbatim>\<open>requests.post\<close> gets no response
  or \<^verbatim>\<open>raise_for_status\<close> rejects the status.
\<close>

definition transport_failure :: "http_outcome \<Rightarrow> bool" where
  "transport_failure out =
     (case out of NoResponse \<Rightarrow> True | Response status body \<Rightarrow> 400 \<le> status \<and> status < 600)"

text \<open>A fresh process: no request sent, every gauge at zero.\<close>

definition state0 :: state where
  "state0 =
     \<lparr>clock = 0, faucet_posts = [], ACTIVATED_AMOUNT = (\<lambda>a. 0), VALIDATOR_ACTIVE = 0,
      EPOCH_NUMBER = 0, CURRENT_BALANCE = 0, TOTAL_STAKE = 0, CURRENT_STAKERS = 0\<rparr>"

text \<open>A node that is down: it alternates between no response and a 503.\<close>

definition dead_node :: "nat \<Rightarrow> string \<Rightarrow> pyval list \<Rightarrow> http_outcome" where
  "dead_node n method params = (if even n then NoResponse else Response 503 NotJson)"

definition dead_env :: env where
  "dead_env =
     \<lparr>node = dead_node, faucet_raises = (\<lambda>n. False), files = (\<lambda>p. None),
      NIMIQ_NETWORK = ''testnet'', float_of_str = (\<lambda>s. None)\<rparr>"

text \<open>A vote key file in the expected layout, and one cut off after the label.\<close>

definition vote_key_file :: "string list" where
  "vote_key_file =
     [''Public Key:'' @ [CHR 0x0A], ''abcd'' @ [CHR 0x0A], [CHR 0x0A],
      ''Secret Key:'' @ [CHR 0x0A], [CHR 0x0A], ''  s3cr3t '' @ [CHR 0x0A]]"

definition short_vote_key_file :: "string list" where
  "short_vote_key_file = [''Secret Key:'' @ [CHR 0x0A], ''s3cr3t'' @ [CHR 0x0A]]"

definition key_files :: "string \<Rightarrow> string list option" where
  "key_files file_path =
     (if file_path = ''/keys/vote_key.txt'' then Some vote_key_file
      else if file_path = ''/keys/short_vote_key.txt'' then Some short_vote_key_file
      else if file_path = ''/keys/signing_key.txt'' then Some [''Private Key: 5ae1'' @ [CHR 0x0A]]
      else if file_path = ''/keys/address.txt'' then Some [''Private Key: 77f0'' @ [CHR 0x0A]]
      else None)"

text \<open>
  A JSON-RPC success response of the node: the payload sits under \<^verbatim>\<open>result.data\<close>.
\<close>

definition rpc_ok :: "pyval \<Rightarrow> http_outcome" where
  "rpc_ok data =
     Response 200
       (Json (PDict [(''jsonrpc'', PStr ''2.0''),
                     (''result'', PDict [(''data'', data), (''metadata'', PNone)]),
                     (''id'', PInt 1)]))"

text \<open>
  A node whose validator is active during the first four requests and retired from the
  fifth on, with a balance of 10,000,000 in the smallest unit.
\<close>

definition validator_node :: "nat \<Rightarrow> string \<Rightarrow> pyval list \<Rightarrow> http_outcome" where
  "validator_node n method params =
     (if method = ''getValidatorByAddress''
      then rpc_ok (PDict [(''balance'', PInt 10000000), (''numStakers'', PInt 2),
                          (''retired'', PBool (4 \<le> n))])
      else if method = ''getEpochNumber'' then rpc_ok (PInt 7)
      else if method = ''getAccountByAddress'' then rpc_ok (PDict [(''balance'', PInt 10000000)])
      else NoResponse)"

definition validator_env :: env where
  "validator_env =
     \<lparr>node = validator_node, faucet_raises = (\<lambda>n. False), files = key_files,
      NIMIQ_NETWORK = ''testnet'', float_of_str = (\<lambda>s. None)\<rparr>"

text \<open>A node that reports an account with a balance of zero.\<close>

definition unfunded_node :: "nat \<Rightarrow> string \<Rightarrow> pyval list \<Rightarrow> http_outcome" where
  "unfunded_node n method params =
     (if method = ''getAccountByAddress'' then rpc_ok (PDict [(''balance'', PInt 0)])
      else NoResponse)"

definition unfunded_env :: env where
  "unfunded_env =
     \<lparr>node = unfunded_node, faucet_raises = (\<lambda>n. False), files = key_files,
      NIMIQ_NETWORK = ''testnet'', float_of_str = (\<lambda>s. None)\<rparr>"

text \<open>
  A node that does not answer the first three requests, then reports a balance of 5, and
  from the fifth request on a balance of 100,000 NIM.
\<close>

definition funding_node :: "nat \<Rightarrow> string \<Rightarrow> pyval list \<Rightarrow> http_outcome" where
  "funding_node n method params =
     (if method = ''getAccountByAddress''
      then (if n < 3 then NoResponse
            else if n = 3 then rpc_ok (PDict [(''balance'', PInt 5)])
            else rpc_ok (PDict [(''balance'', PInt 10000000000)]))
      else NoResponse)"

definition funding_env :: env where
  "funding_env =
     \<lparr>node = funding_node, faucet_raises = (\<lambda>n. False), files = key_files,
      NIMIQ_NETWORK = ''testnet'', float_of_str = (\<lambda>s. None)\<rparr>"



text \<open>
  Responses and nodes for single calls: a JSON-RPC response with the given entries beside
  \<^verbatim>\<open>jsonrpc\<close> and \<^verbatim>\<open>id\<close>, and a node that answers every request the same way.
\<close>

definition bare_response :: "(string \<times> pyval) list \<Rightarrow> http_outcome" where
  "bare_response entries =
     Response 200 (Json (PDict ([(''jsonrpc'', PStr ''2.0'')] @ entries @ [(''id'', PInt 1)])))"

definition answering_env :: "http_outcome \<Rightarrow> env" where
  "answering_env out =
     \<lparr>node = (\<lambda>n method params. out), faucet_raises = (\<lambda>n. False), files = key_files,
      NIMIQ_NETWORK = ''testnet'', float_of_str = (\<lambda>s. None)\<rparr>"

text \<open>
  A funded account on a node that accepts the key import and the unlock; what it answers
  to \<^verbatim>\<open>createNewValidatorTransaction\<close> and to \<^verbatim>\<open>sendRawTransaction\<close> is left open. A
  rejected transaction is a result that carries an \<^verbatim>\<open>error\<close> entry.
\<close>

definition activation_node ::
  "http_outcome \<Rightarrow> http_outcome \<Rightarrow> nat \<Rightarrow> string \<Rightarrow> pyval list \<Rightarrow> http_outcome" where
  "activation_node created sent n method params =
     (if method = ''getAccountByAddress'' then rpc_ok (PDict [(''balance'', PInt 10000000000)])
      else if method = ''importRawKey'' then rpc_ok (PStr ''NQ07'')
      else if method = ''unlockAccount'' then rpc_ok PNone
      else if method = ''createNewValidatorTransaction'' then created
      else if method = ''sendRawTransaction'' then sent
      else NoResponse)"

definition activation_env :: "http_outcome \<Rightarrow> http_outcome \<Rightarrow> env" where
  "activation_env created sent =
     \<lparr>node = activation_node created sent, faucet_raises = (\<lambda>n. False), files = key_files,
      NIMIQ_NETWORK = ''testnet'', float_of_str = (\<lambda>s. None)\<rparr>"

definition rejected_tx :: http_outcome where
  "rejected_tx =
     bare_response [(''result'', PDict [(''error'', PDict [(''message'', PStr ''rejected'')])])]"

text \<open>
  A node in consensus with an active validator, which stops answering
  \<^verbatim>\<open>getValidatorByAddress\<close> from the eighth request on.
\<close>

definition flaky_node :: "nat \<Rightarrow> string \<Rightarrow> pyval list \<Rightarrow> http_outcome" where
  "flaky_node n method params =
     (if method = ''getAddress'' then rpc_ok (PStr ''NQ07'')
      else if method = ''isConsensusEstablished'' then rpc_ok (PBool True)
      else if method = ''getEpochNumber'' then rpc_ok (PInt 7)
      else if method = ''getValidatorByAddress'' \<and> n < 7
      then rpc_ok (PDict [(''balance'', PInt 10000000), (''numStakers'', PInt 2),
                          (''retired'', PBool False)])
      else NoResponse)"

definition flaky_env :: env where
  "flaky_env =
     \<lparr>node = flaky_node, faucet_raises = (\<lambda>n. False), files = key_files,
      NIMIQ_NETWORK = ''testnet'', float_of_str = (\<lambda>s. None)\<rparr>"

section \<open>Properties\<close>

subsection \<open>Rounding to binary64\<close>

lemma round_half_even_near: "\<bar>of_int (round_half_even x) - x\<bar> \<le> 1 / 2"
  unfolding round_half_even_def Let_def
  by (auto simp: abs_if) linarith+

lemma round_half_even_zero [simp]: "round_half_even 0 = 0"
  by (simp add: round_half_even_def)

lemma round_half_even_eqI:
  assumes "of_int k - 1 / 2 < x" "x < of_int k + 1 / 2"
  shows "round_half_even x = k"
proof -
  have "\<bar>of_int (round_half_even x) - x\<bar> \<le> 1 / 2" by (rule round_half_even_near)
  with assms have "\<bar>(of_int (round_half_even x) :: rat) - of_int k\<bar> < 1" by linarith
  then have "\<bar>(of_int (round_half_even x - k) :: rat)\<bar> < of_int 1" by simp
  then have "\<bar>round_half_even x - k\<bar> < 1" by (simp only: of_int_abs [symmetric] of_int_less_iff)
  then show ?thesis by linarith
qed

lemma round_half_even_int [simp]: "round_half_even (of_int k) = k"
  by (simp add: round_half_even_def)

lemma round_half_even_ge: "of_int k \<le> x \<Longrightarrow> k \<le> round_half_even x"
proof -
  assume "of_int k \<le> x"
  then have "k \<le> \<lfloor>x\<rfloor>" by (simp add: le_floor_iff)
  then show ?thesis unfolding round_half_even_def Let_def by auto
qed

lemma round_half_even_le: "x \<le> of_int k \<Longrightarrow> round_half_even x \<le> k"
proof -
  assume a: "x \<le> of_int k"
  show ?thesis
  proof (cases "x = of_int \<lfloor>x\<rfloor>")
    case True
    then have "round_half_even x = \<lfloor>x\<rfloor>" by (metis round_half_even_int)
    with a show ?thesis by (simp add: floor_le_iff)
  next
    case False
    then have "of_int \<lfloor>x\<rfloor> < x" by (metis of_int_floor_le order_less_le)
    with a have "\<lfloor>x\<rfloor> < k" by (metis floor_less_iff less_le_trans of_int_floor_le order_less_le_trans floor_of_int)
    then show ?thesis unfolding round_half_even_def Let_def by auto
  qed
qed

lemma binade_bounds:
  assumes "0 < x"
  shows "2 powi binade x \<le> x" and "x < 2 powi (binade x + 1)"
proof -
  show "2 powi binade x \<le> x"
  proof (cases "1 \<le> x")
    case True
    then have pos: "0 < \<lfloor>x\<rfloor>" by linarith
    from bitlen_bounds [OF pos] have "2 ^ nat (bitlen \<lfloor>x\<rfloor> - 1) \<le> \<lfloor>x\<rfloor>" ..
    then have "(2::rat) ^ nat (bitlen \<lfloor>x\<rfloor> - 1) \<le> of_int \<lfloor>x\<rfloor>"
      by (metis of_int_le_iff of_int_numeral of_int_power)
    also have "\<dots> \<le> x" by simp
    finally have "(2::rat) ^ nat (bitlen \<lfloor>x\<rfloor> - 1) \<le> x" .
    moreover have "0 \<le> bitlen \<lfloor>x\<rfloor> - 1"
      using pos by (simp add: bitlen_alt_def) 
    ultimately show ?thesis using True by (simp add: binade_def power_int_nonneg_exp)
  next
    case False
    let ?c = "\<lceil>1 / x\<rceil>"
    let ?k = "bitlen (?c - 1)"
    from False assms have "1 < 1 / x" by (simp add: field_simps)
    then have pos: "0 < ?c - 1" by linarith
    from bitlen_bounds [OF pos] have "?c - 1 < 2 ^ nat ?k" ..
    then have "?c \<le> 2 ^ nat ?k" by simp
    then have "(of_int ?c :: rat) \<le> 2 ^ nat ?k"
      by (metis of_int_le_iff of_int_numeral of_int_power)
    then have "1 / x \<le> 2 ^ nat ?k" using le_of_int_ceiling [of "1 / x"] by linarith
    then have "1 / 2 ^ nat ?k \<le> x" using assms by (simp add: field_simps)
    moreover have "(2::rat) powi (- ?k) = 1 / 2 ^ nat ?k"
      using bitlen_nonneg [of "?c - 1"] by (simp add: power_int_minus_divide power_int_nonneg_exp)
    ultimately show ?thesis using False by (simp add: binade_def)
  qed
  show "x < 2 powi (binade x + 1)"
  proof (cases "1 \<le> x")
    case True
    then have pos: "0 < \<lfloor>x\<rfloor>" by linarith
    from bitlen_bounds [OF pos] have "\<lfloor>x\<rfloor> < 2 ^ nat (bitlen \<lfloor>x\<rfloor>)" ..
    then have "\<lfloor>x\<rfloor> + 1 \<le> 2 ^ nat (bitlen \<lfloor>x\<rfloor>)" by simp
    then have "(of_int (\<lfloor>x\<rfloor> + 1) :: rat) \<le> 2 ^ nat (bitlen \<lfloor>x\<rfloor>)"
      by (metis of_int_le_iff of_int_numeral of_int_power)
    moreover have "x < of_int (\<lfloor>x\<rfloor> + 1)" by linarith
    ultimately have "x < 2 ^ nat (bitlen \<lfloor>x\<rfloor>)" by linarith
    then show ?thesis using True bitlen_nonneg [of "\<lfloor>x\<rfloor>"]
      by (simp add: binade_def power_int_nonneg_exp)
  next
    case False
    let ?c = "\<lceil>1 / x\<rceil>"
    let ?k = "bitlen (?c - 1)"
    from False assms have "1 < 1 / x" by (simp add: field_simps)
    then have pos: "0 < ?c - 1" by linarith
    then have k1: "1 \<le> ?k" by (simp add: bitlen_alt_def)
    from bitlen_bounds [OF pos] have "2 ^ nat (?k - 1) \<le> ?c - 1" ..
    then have "(2::rat) ^ nat (?k - 1) \<le> of_int (?c - 1)"
      by (metis of_int_le_iff of_int_numeral of_int_power)
    moreover have "of_int (?c - 1) < 1 / x" by linarith
    ultimately have "(2::rat) ^ nat (?k - 1) < 1 / x" by linarith
    then have "x < 1 / 2 ^ nat (?k - 1)" using assms by (simp add: field_simps)
    moreover have "(2::rat) powi (- ?k + 1) = 1 / 2 ^ nat (?k - 1)"
    proof -
      have "(2::rat) powi (- ?k + 1) = 2 powi (- (?k - 1))" by simp
      also have "\<dots> = 1 / 2 powi (?k - 1)" by (rule power_int_minus_divide)
      also have "\<dots> = 1 / 2 ^ nat (?k - 1)" using k1 by (simp add: power_int_nonneg_exp)
      finally show ?thesis .
    qed
    ultimately show ?thesis using False by (simp add: binade_def)
  qed
qed


lemma binade_less: "0 < x \<Longrightarrow> x < 2 powi k \<Longrightarrow> binade x < k"
proof (rule ccontr)
  assume x: "0 < x" "x < 2 powi k" and "\<not> binade x < k"
  then have "(2::rat) powi k \<le> 2 powi binade x" by (intro power_int_increasing) simp_all
  with binade_bounds(1) [OF x(1)] x(2) show False by linarith
qed

lemma binade_ge: "0 < x \<Longrightarrow> 2 powi k \<le> x \<Longrightarrow> k \<le> binade x"
proof (rule ccontr)
  assume x: "0 < x" "2 powi k \<le> x" and "\<not> k \<le> binade x"
  then have "(2::rat) powi (binade x + 1) \<le> 2 powi k" by (intro power_int_increasing) simp_all
  with binade_bounds(2) [OF x(1)] x(2) show False by linarith
qed

lemma binade_eq: "2 powi k \<le> x \<Longrightarrow> x < 2 powi (k + 1) \<Longrightarrow> binade x = k"
proof -
  assume a: "2 powi k \<le> x" "x < 2 powi (k + 1)"
  have "0 < (2::rat) powi k" by simp
  with a(1) have "0 < x" by linarith
  from binade_ge [OF this a(1)] binade_less [OF this a(2)] show ?thesis by simp
qed

lemma binade_mono: "0 < x \<Longrightarrow> x \<le> y \<Longrightarrow> binade x \<le> binade y"
proof -
  assume a: "0 < x" "x \<le> y"
  then have "0 < y" by simp
  from binade_bounds(1) [OF a(1)] a(2) have "2 powi binade x \<le> y" by simp
  from binade_ge [OF \<open>0 < y\<close> this] show ?thesis .
qed

lemma quantum_pos [simp]: "0 < quantum x"
  by (simp add: quantum_def)

lemma quantum_nonzero [simp]: "quantum x \<noteq> 0"
  by (simp add: quantum_def)

lemma binary64_error: "\<bar>binary64 x - x\<bar> \<le> quantum x / 2"
proof (cases "x = 0")
  case True
  then show ?thesis by (simp add: binary64_def less_imp_le)
next
  case False
  let ?q = "quantum x"
  have "\<bar>of_int (round_half_even (x / ?q)) - x / ?q\<bar> * ?q \<le> 1 / 2 * ?q"
    by (intro mult_right_mono round_half_even_near) (simp add: less_imp_le)
  moreover have "\<bar>of_int (round_half_even (x / ?q)) - x / ?q\<bar> * ?q =
                 \<bar>of_int (round_half_even (x / ?q)) * ?q - x\<bar>"
  proof -
    have "\<bar>of_int (round_half_even (x / ?q)) - x / ?q\<bar> * ?q =
          \<bar>(of_int (round_half_even (x / ?q)) - x / ?q) * ?q\<bar>"
      by (simp add: abs_mult less_imp_le)
    also have "(of_int (round_half_even (x / ?q)) - x / ?q) * ?q =
               of_int (round_half_even (x / ?q)) * ?q - x"
      by (simp add: left_diff_distrib)
    finally show ?thesis .
  qed
  ultimately show ?thesis using False by (simp add: binary64_def)
qed

lemma binary64_multiple: "x = of_int k * quantum x \<Longrightarrow> binary64 x = x"
proof -
  assume a: "x = of_int k * quantum x"
  then have "x / quantum x = of_int k"
    by (metis nonzero_mult_div_cancel_right quantum_pos less_irrefl)
  then show ?thesis using a by (simp add: binary64_def)
qed

lemma binary64_nonneg: "0 \<le> x \<Longrightarrow> 0 \<le> binary64 x"
proof -
  assume "0 \<le> x"
  then have "of_int 0 \<le> x / quantum x" by (simp add: less_imp_le)
  then have "0 \<le> round_half_even (x / quantum x)" by (rule round_half_even_ge)
  then show ?thesis by (simp add: binary64_def less_imp_le)
qed

lemma binary64_nonpos: "x \<le> 0 \<Longrightarrow> binary64 x \<le> 0"
proof -
  assume "x \<le> 0"
  then have "x / quantum x \<le> of_int 0" by (simp add: divide_nonpos_pos)
  then have "round_half_even (x / quantum x) \<le> 0" by (rule round_half_even_le)
  then show ?thesis by (simp add: binary64_def mult_nonpos_nonneg less_imp_le)
qed


lemma quantum_eq: "0 < x \<Longrightarrow> quantum x = 2 powi (max (binade x) (- 1022) - 52)"
  by (simp add: quantum_def)

lemma binary64_fixed_multiple:
  assumes "binary64 m = m"
  shows "m = of_int (round_half_even (m / quantum m)) * quantum m"
  using assms by (cases "m = 0") (simp_all add: binary64_def)

lemma binary64_ge:
  assumes "0 < m" "binary64 m = m" "m \<le> x"
  shows "m \<le> binary64 x"
proof -
  let ?em = "max (binade m) (- 1022)" and ?ex = "max (binade x) (- 1022)"
  from assms have x: "0 < x" by simp
  have le: "?em \<le> ?ex" using binade_mono [OF assms(1,3)] by simp
  have b64: "binary64 x = of_int (round_half_even (x / quantum x)) * quantum x"
    using x by (simp add: binary64_def)
  show ?thesis
  proof (cases "?em = ?ex")
    case True
    then have q: "quantum x = quantum m" using x assms(1) by (simp add: quantum_eq)
    let ?K = "round_half_even (m / quantum m)"
    have m: "m = of_int ?K * quantum m" by (rule binary64_fixed_multiple [OF assms(2)])
    have "of_int ?K = m / quantum m" using m by (metis nonzero_mult_div_cancel_right quantum_nonzero)
    also have "\<dots> \<le> x / quantum m" using assms(3) by (simp add: divide_right_mono less_imp_le)
    finally have "?K \<le> round_half_even (x / quantum m)" by (rule round_half_even_ge)
    then have "of_int ?K * quantum m \<le> of_int (round_half_even (x / quantum m)) * quantum m"
      by (simp add: mult_right_mono less_imp_le)
    with m b64 q show ?thesis by simp
  next
    case False
    with le have lt: "?em < ?ex" by linarith
    then have ex: "?ex = binade x" by linarith
    have "m < 2 powi (binade m + 1)" by (rule binade_bounds(2) [OF assms(1)])
    also have "\<dots> \<le> 2 powi binade x" using lt ex by (intro power_int_increasing) simp_all
    finally have below: "m < 2 powi binade x" .
    have qx: "quantum x = 2 powi (binade x - 52)" using x ex by (simp add: quantum_eq)
    have "(of_int (2 ^ 52) :: rat) = 2 powi binade x / quantum x"
      unfolding qx by (simp add: power_int_diff [symmetric])
    also have "\<dots> \<le> x / quantum x"
      using binade_bounds(1) [OF x] by (simp add: divide_right_mono less_imp_le)
    finally have "2 ^ 52 \<le> round_half_even (x / quantum x)" by (rule round_half_even_ge)
    then have "(of_int (2 ^ 52) :: rat) * quantum x \<le> of_int (round_half_even (x / quantum x)) * quantum x"
      by (intro mult_right_mono) (simp_all add: less_imp_le)
    moreover have "(of_int (2 ^ 52) :: rat) * quantum x = 2 powi binade x"
    proof -
      have "(2::rat) powi binade x = 2 powi (52 + (binade x - 52))" by simp
      also have "\<dots> = 2 powi 52 * 2 powi (binade x - 52)" by (rule power_int_add) simp
      finally show ?thesis unfolding qx by simp
    qed
    ultimately show ?thesis using below b64 by linarith
  qed
qed

lemma binary64_le:
  assumes "0 < x" "x \<le> m" "binary64 m = m"
  shows "binary64 x \<le> m"
proof -
  let ?em = "max (binade m) (- 1022)" and ?ex = "max (binade x) (- 1022)"
  from assms have m0: "0 < m" by simp
  have le: "?ex \<le> ?em" using binade_mono [OF assms(1,2)] by simp
  have b64: "binary64 x = of_int (round_half_even (x / quantum x)) * quantum x"
    using assms(1) by (simp add: binary64_def)
  show ?thesis
  proof (cases "?em = ?ex")
    case True
    then have q: "quantum x = quantum m" using m0 assms(1) by (simp add: quantum_eq)
    let ?K = "round_half_even (m / quantum m)"
    have m: "m = of_int ?K * quantum m" by (rule binary64_fixed_multiple [OF assms(3)])
    have "x / quantum m \<le> m / quantum m" using assms(2) by (simp add: divide_right_mono less_imp_le)
    also have "\<dots> = of_int ?K" using m by (metis nonzero_mult_div_cancel_right quantum_nonzero)
    finally have "round_half_even (x / quantum m) \<le> ?K" by (rule round_half_even_le)
    then have "of_int (round_half_even (x / quantum m)) * quantum m \<le> of_int ?K * quantum m"
      by (simp add: mult_right_mono less_imp_le)
    with m b64 q show ?thesis by simp
  next
    case False
    with le have lt: "?ex < ?em" by linarith
    then have em: "?em = binade m" by linarith
    have qx: "quantum x = 2 powi (?ex - 52)" using assms(1) by (simp add: quantum_eq)
    have top: "(of_int (2 ^ 53) :: rat) * quantum x = 2 powi (?ex + 1)"
    proof -
      have "?ex + 1 = 53 + (?ex - 52)" by linarith
      then have "(2::rat) powi (?ex + 1) = 2 powi (53 + (?ex - 52))" by (rule arg_cong)
      also have "\<dots> = 2 powi 53 * 2 powi (?ex - 52)" by (rule power_int_add) simp
      finally show ?thesis unfolding qx by simp
    qed
    have "x < 2 powi (binade x + 1)" by (rule binade_bounds(2) [OF assms(1)])
    also have "\<dots> \<le> 2 powi (?ex + 1)" by (intro power_int_increasing) simp_all
    finally have "x / quantum x \<le> 2 powi (?ex + 1) / quantum x"
      by (simp add: divide_right_mono less_imp_le)
    also have "\<dots> = of_int (2 ^ 53)" using top
      by (metis nonzero_mult_div_cancel_right quantum_nonzero)
    finally have "round_half_even (x / quantum x) \<le> 2 ^ 53" by (rule round_half_even_le)
    then have "of_int (round_half_even (x / quantum x)) * quantum x \<le> (of_int (2 ^ 53) :: rat) * quantum x"
      by (intro mult_right_mono) (simp_all add: less_imp_le)
    also have "\<dots> = 2 powi (?ex + 1)" by (rule top)
    also have "\<dots> \<le> 2 powi binade m"
    proof (intro power_int_increasing)
      show "?ex + 1 \<le> binade m" using lt em by linarith
    qed simp
    also have "\<dots> \<le> m" by (rule binade_bounds(1) [OF m0])
    finally show ?thesis using b64 by simp
  qed
qed


lemma binary64_dyadic:
  assumes "2 powi e \<le> \<bar>x\<bar>" "\<bar>x\<bar> < 2 powi (e + 1)" "- 1022 \<le> e"
    and "x = of_int k * 2 powi (e - 52)"
  shows "binary64 x = x"
proof -
  have "binade \<bar>x\<bar> = e" by (rule binade_eq [OF assms(1,2)])
  then have "quantum x = 2 powi (e - 52)" using assms(3) by (simp add: quantum_def)
  with assms(4) show ?thesis by (intro binary64_multiple [of x k]) simp
qed

lemma binary64_of_int:
  assumes "\<bar>n\<bar> < 2 ^ 53"
  shows "binary64 (of_int n) = of_int n"
proof (cases "n = 0")
  case True
  then show ?thesis by (simp add: binary64_def)
next
  case False
  let ?x = "of_int n :: rat"
  let ?e = "binade \<bar>?x\<bar>"
  have pos: "0 < \<bar>?x\<bar>" using False by simp
  have "1 \<le> \<bar>n\<bar>" using False by linarith
  then have "(2::rat) powi 0 \<le> \<bar>?x\<bar>" by (simp flip: of_int_abs)
  from binade_ge [OF pos this] have e0: "0 \<le> ?e" .
  have "\<bar>?x\<bar> < 2 powi 53" using assms
    by (simp flip: of_int_abs)
  from binade_less [OF pos this] have e52: "?e \<le> 52" by simp
  have q: "quantum ?x = 2 powi (?e - 52)" using e0 by (simp add: quantum_def)
  have "(2::rat) powi (?e - 52) = 1 / 2 ^ nat (52 - ?e)"
  proof -
    have "(2::rat) powi (?e - 52) = 2 powi (- (52 - ?e))" by simp
    also have "\<dots> = 1 / 2 powi (52 - ?e)" by (rule power_int_minus_divide)
    also have "\<dots> = 1 / 2 ^ nat (52 - ?e)" using e52 by (simp add: power_int_nonneg_exp)
    finally show ?thesis .
  qed
  then have "?x = of_int (n * 2 ^ nat (52 - ?e)) * quantum ?x" by (simp add: q)
  then show ?thesis by (rule binary64_multiple)
qed

text \<open>The largest double below 100000, and the doubles around 10^10.\<close>

lemma binary64_one: "binary64 1 = 1"
  using binary64_of_int [of 1] by simp

lemma binary64_below_100000: "binary64 (100000 - 1 / 2 ^ 36) = 100000 - 1 / 2 ^ 36"
  by (rule binary64_dyadic [where e = 16 and k = "100000 * 2 ^ 36 - 1"]) simp_all

lemma binary64_below_1e10: "binary64 (10000000000 - 1 / 2 ^ 19) = 10000000000 - 1 / 2 ^ 19"
  by (rule binary64_dyadic [where e = 33 and k = "10000000000 * 2 ^ 19 - 1"]) simp_all

lemma binary64_two_1024: "binary64 (2 ^ 1024) = 2 ^ 1024"
  by (rule binary64_dyadic [where e = 1024 and k = "2 ^ 52"])
    (simp_all add: power_int_diff power_int_add flip: power_add)

lemma binary64_hundred_thousandth: "binary64 (1 / 100000) = 5902958103587057 / 2 ^ 69"
proof -
  have "binade \<bar>1 / 100000 :: rat\<bar> = - 17" by (rule binade_eq) simp_all
  then have q: "quantum (1 / 100000) = 1 / 2 ^ 69" by (simp add: quantum_def)
  have "round_half_even (1 / 100000 / (1 / 2 ^ 69)) = 5902958103587057"
    by (rule round_half_even_eqI) simp_all
  then show ?thesis unfolding binary64_def q by simp
qed


lemma binary64_gap_1e10:
  assumes "binary64 r = r" "r < 10000000000"
  shows "r \<le> 10000000000 - 1 / 2 ^ 19"
proof (rule ccontr)
  assume "\<not> r \<le> 10000000000 - 1 / 2 ^ 19"
  then have above: "10000000000 - 1 / 2 ^ 19 < r" by simp
  have "binade \<bar>r\<bar> = 33" using above assms(2) by (intro binade_eq) simp_all
  then have q: "quantum r = 1 / 2 ^ 19" by (simp add: quantum_def)
  define K where "K = round_half_even (r / quantum r)"
  have "r = of_int K * quantum r" unfolding K_def by (rule binary64_fixed_multiple [OF assms(1)])
  then have r: "r = of_int K / 2 ^ 19" by (simp add: q)
  have "(of_int (10000000000 * 2 ^ 19 - 1) :: rat) < of_int K"
    using above unfolding r by (simp add: field_simps)
  moreover have "(of_int K :: rat) < of_int (10000000000 * 2 ^ 19)"
    using assms(2) unfolding r by (simp add: field_simps)
  ultimately have "10000000000 * 2 ^ 19 - 1 < K" "K < 10000000000 * 2 ^ 19"
    by (simp_all only: of_int_less_iff)
  then show False by linarith
qed

lemma threshold_reached:
  assumes "10000000000 \<le> x"
  shows "100000 \<le> binary64 (x / 100000)"
proof -
  have "binary64 100000 = 100000" using binary64_of_int [of 100000] by simp
  moreover have "(100000::rat) \<le> x / 100000" using assms by simp
  ultimately show ?thesis by (intro binary64_ge) simp_all
qed

lemma threshold_missed:
  assumes "x \<le> 10000000000 - 1 / 2 ^ 19"
  shows "binary64 (x / 100000) < 100000"
proof (cases "0 < x")
  case False
  then have "binary64 (x / 100000) \<le> 0" by (intro binary64_nonpos) simp
  then show ?thesis by simp
next
  case True
  have "x / 100000 \<le> (10000000000 - 1 / 2 ^ 19) / 100000"
    using assms by (simp add: divide_right_mono)
  also have "\<dots> \<le> 100000 - 1 / 2 ^ 36" by simp
  finally have "binary64 (x / 100000) \<le> 100000 - 1 / 2 ^ 36"
    using True by (intro binary64_le binary64_below_100000) simp_all
  then show ?thesis by simp
qed

lemma threshold_int:
  "100000 \<le> binary64 (binary64 (of_int b) / 100000) \<longleftrightarrow> 10000000000 \<le> b"
proof (cases "10000000000 \<le> b")
  case True
  have "binary64 10000000000 = 10000000000" using binary64_of_int [of 10000000000] by simp
  moreover have "(10000000000 :: rat) \<le> of_int b" using True by simp
  ultimately have "10000000000 \<le> binary64 (of_int b)" by (intro binary64_ge) simp_all
  from threshold_reached [OF this] True show ?thesis by simp
next
  case False
  then have b: "b \<le> 9999999999" by simp
  have "binary64 (of_int b) \<le> 10000000000 - 1 / 2 ^ 19"
  proof (cases "0 < b")
    case True
    have "binary64 (of_int 9999999999) = of_int 9999999999" by (rule binary64_of_int) simp
    moreover have "(of_int b :: rat) \<le> of_int 9999999999" using b by (simp only: of_int_le_iff)
    ultimately have "binary64 (of_int b) \<le> of_int 9999999999"
      using True by (intro binary64_le) simp_all
    then show ?thesis by simp
  next
    case False
    then have "binary64 (of_int b) \<le> 0" by (intro binary64_nonpos) simp
    then show ?thesis by simp
  qed
  from threshold_missed [OF this] False show ?thesis by simp
qed

lemma threshold_float:
  assumes "binary64 r = r"
  shows "100000 \<le> binary64 (r / 100000) \<longleftrightarrow> 10000000000 \<le> r"
proof (cases "10000000000 \<le> r")
  case True
  from threshold_reached [OF this] True show ?thesis by simp
next
  case False
  then have "r \<le> 10000000000 - 1 / 2 ^ 19" by (intro binary64_gap_1e10 assms) simp
  from threshold_missed [OF this] False show ?thesis by simp
qed

lemma binary64_relative_error:
  assumes "2 powi (- 1022) \<le> \<bar>x\<bar>"
  shows "\<bar>binary64 x - x\<bar> \<le> \<bar>x\<bar> / 2 ^ 53"
proof -
  have pos: "0 < \<bar>x\<bar>" using assms by (meson less_le_trans zero_less_numeral zero_less_power_int)
  have "- 1022 \<le> binade \<bar>x\<bar>" by (rule binade_ge [OF pos assms])
  then have "quantum x = 2 powi (binade \<bar>x\<bar> - 52)" by (simp add: quantum_def)
  also have "\<dots> = 2 powi binade \<bar>x\<bar> / 2 powi 52" by (rule power_int_diff) simp
  finally have "quantum x / 2 = 2 powi binade \<bar>x\<bar> / 2 ^ 53" by simp
  also have "\<dots> \<le> \<bar>x\<bar> / 2 ^ 53"
    using binade_bounds(1) [OF pos] by (simp add: divide_right_mono)
  finally show ?thesis using binary64_error [of x] by linarith
qed

lemma float_of_int_value: "float_of_int n = Inr x \<Longrightarrow> x = binary64 (of_int n)"
  by (simp add: float_of_int_def Let_def split: if_splits)

lemma float_of_int_small: "\<bar>n\<bar> < 2 ^ 53 \<Longrightarrow> float_of_int n = Inr (of_int n)"
proof -
  assume a: "\<bar>n\<bar> < 2 ^ 53"
  then have "\<bar>of_int n :: rat\<bar> < 2 ^ 53" by (simp flip: of_int_abs)
  also have "(2::rat) ^ 53 \<le> 2 ^ 1024" by (rule power_increasing) simp_all
  finally show ?thesis using binary64_of_int [OF a] by (simp add: float_of_int_def)
qed

lemma float_of_int_overflow: "2 ^ 1024 \<le> n \<Longrightarrow> float_of_int n = Inl OverflowError"
proof -
  assume "2 ^ 1024 \<le> n"
  then have "(2::rat) ^ 1024 \<le> of_int n"
    by (metis of_int_le_iff of_int_numeral of_int_power)
  then have "2 ^ 1024 \<le> binary64 (of_int n)"
    by (intro binary64_ge binary64_two_1024) simp_all
  then show ?thesis by (simp add: float_of_int_def)
qed

lemma binary64_largest: "binary64 (2 ^ 1024 - 2 ^ 971) = 2 ^ 1024 - 2 ^ 971"
  by (rule binary64_dyadic [where e = 1023 and k = "2 ^ 53 - 1"])
    (simp_all add: power_int_diff power_int_add flip: power_add)

lemma binary64_top_binade:
  assumes lo: "2 ^ 1024 - 2 ^ 971 \<le> x" and hi: "x < 2 ^ 1024"
  shows "binary64 x = of_int (round_half_even (x / 2 ^ 971)) * 2 ^ 971"
proof -
  have "(2::rat) powi 1023 \<le> 2 ^ 1024 - 2 ^ 971" by simp
  with lo have "2 powi 1023 \<le> x" by linarith
  moreover have "x < 2 powi (1023 + 1)" using hi by simp
  ultimately have b: "binade x = 1023" by (rule binade_eq)
  have "(0::rat) < 2 ^ 1024 - 2 ^ 971" by simp
  with lo have pos: "0 < x" by linarith
  then have "\<bar>x\<bar> = x" by simp
  with b have "quantum x = 2 powi 971" by (simp add: quantum_def)
  then have "quantum x = 2 ^ 971" by simp
  with pos show ?thesis by (simp only: binary64_def) simp
qed

lemma float_of_int_defined_iff:
  assumes "0 \<le> n"
  shows "(\<exists>x. float_of_int n = Inr x) \<longleftrightarrow> n < 2 ^ 1024 - 2 ^ 970"
proof -
  let ?x = "of_int n :: rat"
  have c1: "(of_int (2 ^ 1024 - 2 ^ 970) :: rat) = 2 ^ 1024 - 2 ^ 970"
    by (simp only: of_int_diff of_int_power of_int_numeral)
  have c2: "(of_int (2 ^ 1024 - 2 ^ 971) :: rat) = 2 ^ 1024 - 2 ^ 971"
    by (simp only: of_int_diff of_int_power of_int_numeral)
  have c3: "(of_int (2 ^ 1024) :: rat) = 2 ^ 1024"
    by (simp only: of_int_power of_int_numeral)
  have nonneg: "0 \<le> binary64 ?x" using assms by (intro binary64_nonneg) simp
  consider (low) "n \<le> 2 ^ 1024 - 2 ^ 971"
    | (mid) "2 ^ 1024 - 2 ^ 971 < n" "n < 2 ^ 1024 - 2 ^ 970"
    | (tie) "2 ^ 1024 - 2 ^ 970 \<le> n" "n < 2 ^ 1024"
    | (high) "2 ^ 1024 \<le> n"
    by linarith
  then show ?thesis
  proof cases
    case low
    then have x: "?x \<le> 2 ^ 1024 - 2 ^ 971"
      unfolding c2 [symmetric] by (simp only: of_int_le_iff)
    have "binary64 ?x \<le> 2 ^ 1024 - 2 ^ 971"
    proof (cases "n = 0")
      case True
      then show ?thesis by (simp add: binary64_def)
    next
      case False
      with assms have "0 < ?x" by simp
      then show ?thesis using x binary64_largest by (rule binary64_le)
    qed
    then have "\<bar>binary64 ?x\<bar> < 2 ^ 1024" using nonneg by simp
    moreover have "n < 2 ^ 1024 - 2 ^ 970" using low by simp
    ultimately show ?thesis by (simp add: float_of_int_def Let_def)
  next
    case mid
    then have x: "2 ^ 1024 - 2 ^ 971 < ?x" "?x < 2 ^ 1024 - 2 ^ 970"
      unfolding c1 [symmetric] c2 [symmetric] by (simp_all only: of_int_less_iff)
    have "round_half_even (?x / 2 ^ 971) = 2 ^ 53 - 1"
    proof (rule round_half_even_eqI)
      have "(of_int (2 ^ 53 - 1) - 1 / 2) * 2 ^ 971 < (2::rat) ^ 1024 - 2 ^ 971" by simp
      with x(1) have "(of_int (2 ^ 53 - 1) - 1 / 2) * 2 ^ 971 < ?x" by linarith
      then show "of_int (2 ^ 53 - 1) - 1 / 2 < ?x / 2 ^ 971"
        by (simp only: pos_less_divide_eq zero_less_power zero_less_numeral)
      have "(2::rat) ^ 1024 - 2 ^ 970 = (of_int (2 ^ 53 - 1) + 1 / 2) * 2 ^ 971" by simp
      with x(2) have "?x < (of_int (2 ^ 53 - 1) + 1 / 2) * 2 ^ 971" by linarith
      then show "?x / 2 ^ 971 < of_int (2 ^ 53 - 1) + 1 / 2"
        by (simp only: pos_divide_less_eq zero_less_power zero_less_numeral)
    qed
    moreover have "binary64 ?x = of_int (round_half_even (?x / 2 ^ 971)) * 2 ^ 971"
    proof (rule binary64_top_binade)
      show "2 ^ 1024 - 2 ^ 971 \<le> ?x" using x(1) by (rule less_imp_le)
      have "(2::rat) ^ 1024 - 2 ^ 970 < 2 ^ 1024" by simp
      with x(2) show "?x < 2 ^ 1024" by linarith
    qed
    ultimately have "binary64 ?x = of_int (2 ^ 53 - 1) * 2 ^ 971" by (simp only:)
    also have "\<dots> = 2 ^ 1024 - 2 ^ 971" by simp
    finally have "\<bar>binary64 ?x\<bar> < 2 ^ 1024" by simp
    with mid show ?thesis by (simp add: float_of_int_def Let_def)
  next
    case tie
    from tie(1) have x1: "2 ^ 1024 - 2 ^ 970 \<le> ?x"
      unfolding c1 [symmetric] by (simp only: of_int_le_iff)
    from tie(2) have x2: "?x < 2 ^ 1024"
      unfolding c3 [symmetric] by (simp only: of_int_less_iff)
    note x = x1 x2
    have lo: "of_int (2 ^ 53 - 1) + 1 / 2 \<le> ?x / 2 ^ 971"
    proof -
      have "(of_int (2 ^ 53 - 1) + 1 / 2) * 2 ^ 971 = (2::rat) ^ 1024 - 2 ^ 970" by simp
      with x(1) have "(of_int (2 ^ 53 - 1) + 1 / 2) * 2 ^ 971 \<le> ?x" by linarith
      then show ?thesis by (simp only: pos_le_divide_eq zero_less_power zero_less_numeral)
    qed
    have hi: "?x / 2 ^ 971 < of_int (2 ^ 53 - 1) + 1"
    proof -
      have "(of_int (2 ^ 53 - 1) + 1) * 2 ^ 971 = (2::rat) ^ 1024" by simp
      with x(2) have "?x < (of_int (2 ^ 53 - 1) + 1) * 2 ^ 971" by linarith
      then show ?thesis by (simp only: pos_divide_less_eq zero_less_power zero_less_numeral)
    qed
    have fl: "\<lfloor>?x / 2 ^ 971\<rfloor> = 2 ^ 53 - 1"
      using lo hi by (intro floor_unique) linarith+
    have odd: "\<not> even (2 ^ 53 - 1 :: int)" by simp
    have "round_half_even (?x / 2 ^ 971) = (2 ^ 53 - 1) + 1"
      using lo odd unfolding round_half_even_def Let_def fl by (simp only: if_False not_less) auto
    then have r: "round_half_even (?x / 2 ^ 971) = 2 ^ 53" by simp
    have "binary64 ?x = of_int (round_half_even (?x / 2 ^ 971)) * 2 ^ 971"
    proof (rule binary64_top_binade)
      have "(2::rat) ^ 1024 - 2 ^ 971 \<le> 2 ^ 1024 - 2 ^ 970" by simp
      with x(1) show "2 ^ 1024 - 2 ^ 971 \<le> ?x" by linarith
      show "?x < 2 ^ 1024" by (rule x(2))
    qed
    with r have "binary64 ?x = of_int (2 ^ 53) * 2 ^ 971" by (simp only:)
    also have "\<dots> = 2 ^ 1024" by simp
    finally have "2 ^ 1024 \<le> \<bar>binary64 ?x\<bar>" by simp
    with tie show ?thesis by (simp add: float_of_int_def Let_def)
  next
    case high
    then have "float_of_int n = Inl OverflowError" by (rule float_of_int_overflow)
    moreover have "\<not> n < 2 ^ 1024 - 2 ^ 970" using high by simp
    ultimately show ?thesis by simp
  qed
qed

lemma float_of_int_overflow_iff:
  assumes "0 \<le> n"
  shows "float_of_int n = Inl OverflowError \<longleftrightarrow> 2 ^ 1024 - 2 ^ 970 \<le> n"
proof -
  have "float_of_int n = Inl OverflowError \<longleftrightarrow> \<not> (\<exists>x. float_of_int n = Inr x)"
    by (simp add: float_of_int_def Let_def)
  with float_of_int_defined_iff [OF assms] show ?thesis by (simp only: not_less)
qed

lemma py_div_1e5_small:
  "\<bar>n\<bar> < 2 ^ 53 \<Longrightarrow> py_div_1e5 (PInt n) = Inr (binary64 (of_int n / 100000))"
  by (simp add: py_div_1e5_def float_of_int_small)

lemma py_div_1e5_exact:
  "py_div_1e5 (PInt 10000000000) = Inr 100000"
  "py_div_1e5 (PInt 10000000) = Inr 100"
  using py_div_1e5_small [of 10000000000] py_div_1e5_small [of 10000000]
    binary64_of_int [of 100000] binary64_of_int [of 100]
  by simp_all

lemma py_div_1e5_threshold_int:
  "py_div_1e5 (PInt b) = Inr nim \<Longrightarrow> 100000 \<le> nim \<longleftrightarrow> 100000 * 100000 \<le> b"
  using threshold_int [of b]
  by (auto simp: py_div_1e5_def split: sum.splits dest!: float_of_int_value)

lemma py_div_1e5_threshold_float:
  "binary64 r = r \<Longrightarrow> py_div_1e5 (PFloat r) = Inr nim \<Longrightarrow>
   100000 \<le> nim \<longleftrightarrow> 100000 * 100000 \<le> r"
  using threshold_float [of r] by (auto simp: py_div_1e5_def)

lemma py_div_1e5_bool: "py_div_1e5 (PBool t) = Inr nim \<Longrightarrow> nim < 100000"
  using threshold_missed [of 1] threshold_missed [of 0]
  by (auto simp: py_div_1e5_def split: if_splits)

lemma py_div_1e5_overflow:
  "2 ^ 1024 - 2 ^ 970 \<le> n \<Longrightarrow> py_div_1e5 (PInt n) = Inl OverflowError"
proof -
  assume a: "2 ^ 1024 - 2 ^ 970 \<le> n"
  then have "0 \<le> n" by simp
  from float_of_int_overflow_iff [OF this] a show ?thesis by (simp add: py_div_1e5_def)
qed

lemma py_div_1e5_defined:
  "0 \<le> n \<Longrightarrow> n < 2 ^ 1024 - 2 ^ 970 \<Longrightarrow> \<exists>nim. py_div_1e5 (PInt n) = Inr nim"
  using float_of_int_defined_iff [of n] by (auto simp: py_div_1e5_def)

subsection \<open>The RPC client\<close>

lemma nimiq_request_no_retries:
  "retries \<le> 0 \<Longrightarrow> nimiq_request e method params retries s = (Inr PNone, s)"
  by (simp add: nimiq_request.simps)

lemma nimiq_request_failed_attempt:
  "0 < retries \<Longrightarrow> transport_failure (node e (clock s) method params) \<Longrightarrow>
   nimiq_request e method params retries s =
   nimiq_request e method params (retries - 1) (s\<lparr>clock := clock s + 1\<rparr>)"
  by (subst nimiq_request.simps) (simp add: transport_failure_def split: http_outcome.splits)

lemma nimiq_request_all_fail:
  "(\<And>i. i < n \<Longrightarrow> transport_failure (node e (clock s + i) method params)) \<Longrightarrow>
   nimiq_request e method params (int n) s = (Inr PNone, s\<lparr>clock := clock s + n\<rparr>)"
proof (induction n arbitrary: s)
  case 0
  then show ?case by (simp add: nimiq_request_no_retries)
next
  case (Suc n)
  let ?s' = "s\<lparr>clock := clock s + 1\<rparr>"
  have first: "transport_failure (node e (clock s) method params)"
    using Suc.prems [of 0] by simp
  have rest: "transport_failure (node e (clock ?s' + i) method params)" if "i < n" for i
    using Suc.prems [of "Suc i"] that by simp
  have "nimiq_request e method params (int (Suc n)) s = nimiq_request e method params (int n) ?s'"
    using nimiq_request_failed_attempt [OF _ first, of "int (Suc n)"] by simp
  also have "\<dots> = (Inr PNone, ?s'\<lparr>clock := clock ?s' + n\<rparr>)"
    using rest by (rule Suc.IH)
  finally show ?case by simp
qed

text \<open>
  C2. Called with \<^verbatim>\<open>retries=3\<close>, for any method and parameters: when each of the next three
  attempts fails at the transport or status level, whatever the status and the body of a
  rejected response, \<^verbatim>\<open>nimiq_request\<close> sends exactly three POSTs and returns \<^verbatim>\<open>None\<close>; it
  returns, so no exception leaves it.
\<close>

theorem nimiq_request_retry_bound:
  assumes "\<forall>i<3. transport_failure (node e (clock s + i) method params)"
  shows "nimiq_request e method params 3 s = (Inr PNone, s\<lparr>clock := clock s + 3\<rparr>)"
  using nimiq_request_all_fail [of 3] assms by simp

theorem nimiq_request_retry_bound_witness:
  "transport_failure (node dead_env 0 ''getAddress'' [])
   \<and> transport_failure (node dead_env 1 ''getAddress'' [])
   \<and> transport_failure (node dead_env 2 ''getAddress'' [])
   \<and> nimiq_request dead_env ''getAddress'' [] 3 state0 = (Inr PNone, state0\<lparr>clock := 3\<rparr>)"
proof -
  have h: "\<forall>i<3. transport_failure (node dead_env (clock state0 + i) ''getAddress'' [])"
    by (simp add: dead_env_def dead_node_def transport_failure_def)
  from nimiq_request_retry_bound [OF h] show ?thesis
    by (simp add: state0_def dead_env_def dead_node_def transport_failure_def)
qed

subsection \<open>The vote key\<close>

lemma get_vote_key_loop_in_range:
  "(\<And>j. j \<in> set idxs \<Longrightarrow> py_contains ''Secret Key:'' (lines ! j) \<Longrightarrow> j + 2 < length lines) \<Longrightarrow>
   get_vote_key_loop lines idxs secret_key =
   Inr (case filter (\<lambda>j. py_contains ''Secret Key:'' (lines ! j)) idxs of
          [] \<Rightarrow> secret_key
        | j # js \<Rightarrow> Some (py_strip (lines ! (last (j # js) + 2))))"
proof (induction idxs arbitrary: secret_key)
  case Nil
  then show ?case by simp
next
  case (Cons i idxs)
  then show ?case
    by (auto simp: py_index_def split: list.splits)
qed

lemma get_vote_key_loop_out_of_range:
  "j \<in> set idxs \<Longrightarrow> py_contains ''Secret Key:'' (lines ! j) \<Longrightarrow> \<not> j + 2 < length lines \<Longrightarrow>
   sorted idxs \<Longrightarrow>
   get_vote_key_loop lines idxs secret_key = Inl IndexError"
proof (induction idxs arbitrary: secret_key)
  case Nil
  then show ?case by simp
next
  case (Cons i idxs)
  show ?case
  proof (cases "i = j")
    case True
    with Cons.prems show ?thesis by (simp add: py_index_def)
  next
    case False
    with Cons.prems have in_rest: "j \<in> set idxs" and "i \<le> j" and "sorted idxs" by auto
    have later: "get_vote_key_loop lines idxs sk = Inl IndexError" for sk
      using Cons.IH [OF in_rest Cons.prems(2,3) \<open>sorted idxs\<close>] .
    show ?thesis by (simp add: later py_index_def)
  qed
qed

lemma filter_upt_last:
  assumes "i < n" "P i" "\<And>j. i < j \<Longrightarrow> j < n \<Longrightarrow> \<not> P j"
  shows "\<exists>js. filter P [0..<n] = js @ [i]"
proof -
  have "[0..<n] = [0..<i] @ i # [Suc i..<n]"
  proof -
    have "[0..<i + (n - i)] = [0..<i] @ [i..<i + (n - i)]" by (rule upt_add_eq_append) simp
    then show ?thesis using assms(1) by (simp add: upt_conv_Cons)
  qed
  moreover have "filter P [Suc i..<n] = []"
    using assms(3) by (auto simp: filter_empty_conv)
  ultimately show ?thesis using assms(2) by simp
qed

lemma get_vote_key_lines_last_label:
  assumes "i < length lines"
    and "py_contains ''Secret Key:'' (lines ! i)"
    and "\<forall>j. i < j \<and> j < length lines \<longrightarrow> \<not> py_contains ''Secret Key:'' (lines ! j)"
  shows "get_vote_key_lines lines =
         (if i + 2 < length lines then Inr (py_strip (lines ! (i + 2))) else Inl IndexError)"
proof (cases "i + 2 < length lines")
  case True
  let ?P = "\<lambda>j. py_contains ''Secret Key:'' (lines ! j)"
  have in_range: "j + 2 < length lines" if "j \<in> set [0..<length lines]" "?P j" for j
  proof -
    have "j \<le> i" using assms(3) that by (metis atLeastLessThan_iff not_le_imp_less set_upt)
    then show ?thesis using True by simp
  qed
  obtain js where js: "filter ?P [0..<length lines] = js @ [i]"
    using filter_upt_last [of i "length lines" ?P] assms by blast
  have "get_vote_key_loop lines [0..<length lines] None =
        Inr (case filter ?P [0..<length lines] of
               [] \<Rightarrow> None
             | j # js \<Rightarrow> Some (py_strip (lines ! (last (j # js) + 2))))"
    by (rule get_vote_key_loop_in_range) (rule in_range)
  then have "get_vote_key_loop lines [0..<length lines] None =
             Inr (Some (py_strip (lines ! (i + 2))))"
    unfolding js by (cases js) simp_all
  then show ?thesis using True by (simp add: get_vote_key_lines_def)
next
  case False
  have "get_vote_key_loop lines [0..<length lines] None = Inl IndexError"
    by (rule get_vote_key_loop_out_of_range [of i]) (use assms False in simp_all)
  then show ?thesis using False by (simp add: get_vote_key_lines_def)
qed

text \<open>
  C8. Let line \<open>i\<close> be the last line of the key file that contains the label
  \<^verbatim>\<open>Secret Key:\<close>. When at least two lines follow it, \<^verbatim>\<open>get_vote_key\<close> returns line \<open>i + 2\<close>,
  stripped; when fewer than two lines follow it, \<^verbatim>\<open>get_vote_key\<close> raises \<^verbatim>\<open>IndexError\<close>.
\<close>

theorem get_vote_key_two_lines_after_label:
  assumes "files e file_path = Some lines"
    and "i < length lines"
    and "py_contains ''Secret Key:'' (lines ! i)"
    and "\<forall>j. i < j \<and> j < length lines \<longrightarrow> \<not> py_contains ''Secret Key:'' (lines ! j)"
  shows "get_vote_key e file_path =
         (if i + 2 < length lines then Inr (py_strip (lines ! (i + 2))) else Inl IndexError)"
  using get_vote_key_lines_last_label [OF assms(2,3,4)] assms(1)
  by (simp add: get_vote_key_def)

theorem get_vote_key_two_lines_after_label_witness:
  "get_vote_key (dead_env\<lparr>files := key_files\<rparr>) ''/keys/vote_key.txt'' = Inr ''s3cr3t''
   \<and> get_vote_key (dead_env\<lparr>files := key_files\<rparr>) ''/keys/short_vote_key.txt'' = Inl IndexError"
proof -
  let ?e = "dead_env\<lparr>files := key_files\<rparr>"
  have f1: "files ?e ''/keys/vote_key.txt'' = Some vote_key_file"
    by (simp add: key_files_def)
  have l1: "3 < length vote_key_file"
    by (simp add: vote_key_file_def)
  have c1: "py_contains ''Secret Key:'' (vote_key_file ! 3)"
    by (simp add: vote_key_file_def)
  have n1: "\<forall>j. 3 < j \<and> j < length vote_key_file \<longrightarrow>
              \<not> py_contains ''Secret Key:'' (vote_key_file ! j)"
  proof (intro allI impI)
    fix j assume "3 < j \<and> j < length vote_key_file"
    then have "j = 4 \<or> j = 5" by (auto simp: vote_key_file_def)
    then show "\<not> py_contains ''Secret Key:'' (vote_key_file ! j)"
      by (auto simp: vote_key_file_def)
  qed
  have f2: "files ?e ''/keys/short_vote_key.txt'' = Some short_vote_key_file"
    by (simp add: key_files_def)
  have l2: "0 < length short_vote_key_file"
    by (simp add: short_vote_key_file_def)
  have c2: "py_contains ''Secret Key:'' (short_vote_key_file ! 0)"
    by (simp add: short_vote_key_file_def)
  have n2: "\<forall>j. 0 < j \<and> j < length short_vote_key_file \<longrightarrow>
              \<not> py_contains ''Secret Key:'' (short_vote_key_file ! j)"
  proof (intro allI impI)
    fix j assume "0 < j \<and> j < length short_vote_key_file"
    then have "j = 1" by (auto simp: short_vote_key_file_def)
    then show "\<not> py_contains ''Secret Key:'' (short_vote_key_file ! j)"
      by (auto simp: short_vote_key_file_def)
  qed
  have "get_vote_key ?e ''/keys/vote_key.txt'' = Inr ''s3cr3t''"
    using get_vote_key_two_lines_after_label [OF f1 l1 c1 n1]
    by (simp add: vote_key_file_def py_strip_def py_isspace_def)
  moreover have "get_vote_key ?e ''/keys/short_vote_key.txt'' = Inl IndexError"
    using get_vote_key_two_lines_after_label [OF f2 l2 c2 n2]
    by (simp add: short_vote_key_file_def)
  ultimately show ?thesis by simp
qed

subsection \<open>The active check and the monitoring loop\<close>

lemma is_validator_active_True_iff:
  "fst (is_validator_active e address s) = Inr True \<longleftrightarrow>
   (\<exists>kvs data retired s1.
      nimiq_request e ''getValidatorByAddress'' [address] 3 s = (Inr (PDict kvs), s1) \<and>
      map_of kvs ''data'' = Some (PDict data) \<and>
      map_of data ''retired'' = Some retired \<and> \<not> py_truthy retired)"
proof (cases "nimiq_request e ''getValidatorByAddress'' [address] 3 s")
  case (Pair r s1)
  show ?thesis
  proof (cases r)
    case (Inl err)
    with Pair show ?thesis by (simp add: is_validator_active_def)
  next
    case (Inr result)
    show ?thesis
    proof (cases result)
      case (PDict kvs)
      show ?thesis
      proof (cases "map_of kvs ''data''")
        case None
        with Pair Inr PDict show ?thesis
          by (simp add: is_validator_active_def py_in_def)
      next
        case (Some data)
        with Pair Inr PDict show ?thesis
          by (cases data)
            (auto simp: is_validator_active_def py_in_def py_subscript_def py_truthy_def
              split: option.splits)
      qed
    qed (use Pair Inr in
          \<open>simp_all add: is_validator_active_def py_in_def py_subscript_def py_truthy_def\<close>)
  qed
qed

lemma is_validator_active_no_result:
  "nimiq_request e ''getValidatorByAddress'' [address] 3 s = (Inr PNone, s1) \<Longrightarrow>
   is_validator_active e address s = (Inr False, s1)"
  by (simp add: is_validator_active_def py_truthy_def)

lemma is_validator_active_no_data:
  "nimiq_request e ''getValidatorByAddress'' [address] 3 s = (Inr (PDict kvs), s1) \<Longrightarrow>
   map_of kvs ''data'' = None \<Longrightarrow>
   is_validator_active e address s = (Inr False, s1)"
  by (simp add: is_validator_active_def py_truthy_def py_in_def)

lemma is_validator_active_flag:
  "nimiq_request e ''getValidatorByAddress'' [address] 3 s = (Inr (PDict kvs), s1) \<Longrightarrow>
   map_of kvs ''data'' = Some (PDict data) \<Longrightarrow>
   map_of data ''retired'' = Some (PBool retired) \<Longrightarrow>
   is_validator_active e address s =
   (Inr (\<not> retired), s1\<lparr>VALIDATOR_ACTIVE := (if retired then 0 else 1)\<rparr>)"
  by (cases kvs) (auto simp: is_validator_active_def py_truthy_def py_in_def py_subscript_def)

lemma monitor_iteration_break_iff:
  "monitor_active_validator_iteration e address s = (Inr True, s1) \<longleftrightarrow>
   is_validator_active e address s = (Inr False, s1)"
  by (auto simp: monitor_active_validator_iteration_def split: prod.splits sum.splits)

lemma monitor_iteration_continue_iff:
  "monitor_active_validator_iteration e address s = (Inr False, s4) \<longleftrightarrow>
   (\<exists>s1 u s2 stake s3 balance.
      is_validator_active e address s = (Inr True, s1) \<and>
      get_epoch_number e s1 = (Inr u, s2) \<and>
      get_stake_by_address e address s2 = (Inr stake, s3) \<and>
      set_balance_prometheus e address s3 = (Inr balance, s4))"
  by (auto simp: monitor_active_validator_iteration_def split: prod.splits sum.splits)

lemma monitor_exit_on_inactive:
  "is_validator_active e address s = (Inr False, s1) \<Longrightarrow>
   monitor_active_validator e address s = Some (Inr (), s1)"
  by (subst monitor_active_validator.simps) (simp add: monitor_active_validator_iteration_def)

lemma monitor_continue_on_active:
  "monitor_active_validator_iteration e address s = (Inr False, s1) \<Longrightarrow>
   monitor_active_validator e address s = monitor_active_validator e address s1"
  by (subst monitor_active_validator.simps) simp

lemma monitor_raise:
  "monitor_active_validator_iteration e address s = (Inl err, s1) \<Longrightarrow>
   monitor_active_validator e address s = Some (Inl err, s1)"
  by (subst monitor_active_validator.simps) simp

lemma monitor_after_passes:
  "loop_passes (monitor_active_validator_iteration e address) s s0 \<Longrightarrow>
   monitor_active_validator e address s = monitor_active_validator e address s0"
  by (induction rule: loop_passes.induct) (simp_all add: monitor_continue_on_active)

lemma monitor_returns_after_break:
  assumes "monitor_active_validator e address s = Some r"
  shows "fst r = Inr () \<longrightarrow>
         (\<exists>s0. loop_passes (monitor_active_validator_iteration e address) s s0 \<and>
               monitor_active_validator_iteration e address s0 = (Inr True, snd r))"
  by (rule monitor_active_validator.raw_induct
        [where P = "\<lambda>e address s r. fst r = Inr () \<longrightarrow>
           (\<exists>s0. loop_passes (monitor_active_validator_iteration e address) s s0 \<and>
                 monitor_active_validator_iteration e address s0 = (Inr True, snd r))",
         OF _ assms])
     (auto split: prod.splits sum.splits if_splits intro: loop_passes.passes_none,
      blast intro: loop_passes.passes_more)

text \<open>
  C9. \<^verbatim>\<open>is_validator_active\<close> returns \<^verbatim>\<open>True\<close> if and only if the
  \<^verbatim>\<open>getValidatorByAddress\<close> call returns an object with a \<^verbatim>\<open>data\<close> object whose \<^verbatim>\<open>retired\<close>
  entry is false (as \<^verbatim>\<open>not\<close> reads it; for a boolean flag the result is its negation, and
  the gauge is set to match). It returns \<^verbatim>\<open>False\<close> when the call yields no result and when
  \<^verbatim>\<open>data\<close> is missing. A pass of the monitoring loop ends in \<^verbatim>\<open>break\<close> exactly when the
  active check returns \<^verbatim>\<open>False\<close>; the loop then returns at once. A pass goes on to the
  next one exactly when the active check returns \<^verbatim>\<open>True\<close> and the three metric updates
  that follow it return, and the loop then runs on from the state they leave; a pass that
  raises ends the loop with its error. The loop returns exactly when, after passes that
  did not break, an active check returns \<^verbatim>\<open>False\<close>, in the state that check leaves.
\<close>

theorem is_validator_active_monitor_exit:
  "(fst (is_validator_active e address s) = Inr True \<longleftrightarrow>
      (\<exists>kvs data retired s1.
         nimiq_request e ''getValidatorByAddress'' [address] 3 s = (Inr (PDict kvs), s1) \<and>
         map_of kvs ''data'' = Some (PDict data) \<and>
         map_of data ''retired'' = Some retired \<and> \<not> py_truthy retired))
   \<and> (nimiq_request e ''getValidatorByAddress'' [address] 3 s = (Inr PNone, s1) \<longrightarrow>
        is_validator_active e address s = (Inr False, s1))
   \<and> (nimiq_request e ''getValidatorByAddress'' [address] 3 s = (Inr (PDict kvs), s1) \<and>
        map_of kvs ''data'' = None \<longrightarrow>
        is_validator_active e address s = (Inr False, s1))
   \<and> (nimiq_request e ''getValidatorByAddress'' [address] 3 s = (Inr (PDict kvs), s1) \<and>
        map_of kvs ''data'' = Some (PDict data) \<and>
        map_of data ''retired'' = Some (PBool retired) \<longrightarrow>
        is_validator_active e address s =
        (Inr (\<not> retired), s1\<lparr>VALIDATOR_ACTIVE := (if retired then 0 else 1)\<rparr>))
   \<and> (monitor_active_validator_iteration e address s = (Inr True, s1) \<longleftrightarrow>
        is_validator_active e address s = (Inr False, s1))
   \<and> (is_validator_active e address s = (Inr False, s1) \<longrightarrow>
        monitor_active_validator e address s = Some (Inr (), s1))
   \<and> (monitor_active_validator e address s = Some (Inr (), s') \<longleftrightarrow>
        (\<exists>s0. loop_passes (monitor_active_validator_iteration e address) s s0 \<and>
              is_validator_active e address s0 = (Inr False, s')))
   \<and> (monitor_active_validator_iteration e address s = (Inr False, s1) \<longleftrightarrow>
        (\<exists>s2 u s3 stake s4 balance.
           is_validator_active e address s = (Inr True, s2) \<and>
           get_epoch_number e s2 = (Inr u, s3) \<and>
           get_stake_by_address e address s3 = (Inr stake, s4) \<and>
           set_balance_prometheus e address s4 = (Inr balance, s1)))
   \<and> (monitor_active_validator_iteration e address s = (Inr False, s1) \<longrightarrow>
        monitor_active_validator e address s = monitor_active_validator e address s1)
   \<and> (monitor_active_validator_iteration e address s = (Inl err, s1) \<longrightarrow>
        monitor_active_validator e address s = Some (Inl err, s1))"
proof -
  have last_check: "monitor_active_validator e address s = Some (Inr (), s') \<longleftrightarrow>
        (\<exists>s0. loop_passes (monitor_active_validator_iteration e address) s s0 \<and>
              is_validator_active e address s0 = (Inr False, s'))"
  proof
    assume "monitor_active_validator e address s = Some (Inr (), s')"
    from monitor_returns_after_break [OF this]
    show "\<exists>s0. loop_passes (monitor_active_validator_iteration e address) s s0 \<and>
               is_validator_active e address s0 = (Inr False, s')"
      by (simp add: monitor_iteration_break_iff)
  next
    assume "\<exists>s0. loop_passes (monitor_active_validator_iteration e address) s s0 \<and>
                 is_validator_active e address s0 = (Inr False, s')"
    then obtain s0 where "loop_passes (monitor_active_validator_iteration e address) s s0"
      and "is_validator_active e address s0 = (Inr False, s')" by blast
    then show "monitor_active_validator e address s = Some (Inr (), s')"
      using monitor_after_passes monitor_exit_on_inactive by simp
  qed
  show ?thesis
    using is_validator_active_True_iff [of e address s]
      is_validator_active_no_result [of e address s s1]
      is_validator_active_no_data [of e address s kvs s1]
      is_validator_active_flag [of e address s kvs s1 data retired]
      monitor_iteration_break_iff [of e address s s1]
      monitor_exit_on_inactive [of e address s s1]
      last_check
      monitor_iteration_continue_iff [of e address s s1]
      monitor_continue_on_active [of e address s s1]
      monitor_raise [of e address s err s1]
    by blast
qed

theorem is_validator_active_monitor_exit_witness:
  "is_validator_active validator_env (PStr ''NQ07'') state0 =
     (Inr True, state0\<lparr>clock := 1, VALIDATOR_ACTIVE := 1\<rparr>)
   \<and> is_validator_active validator_env (PStr ''NQ07'') (state0\<lparr>clock := 4\<rparr>) =
     (Inr False, state0\<lparr>clock := 5, VALIDATOR_ACTIVE := 0\<rparr>)
   \<and> is_validator_active dead_env (PStr ''NQ07'') state0 = (Inr False, state0\<lparr>clock := 3\<rparr>)
   \<and> monitor_active_validator validator_env (PStr ''NQ07'') (state0\<lparr>clock := 4\<rparr>) =
     Some (Inr (), state0\<lparr>clock := 5, VALIDATOR_ACTIVE := 0\<rparr>)
   \<and> monitor_active_validator_iteration validator_env (PStr ''NQ07'') state0 =
     (Inr False,
      state0\<lparr>clock := 4, VALIDATOR_ACTIVE := 1, EPOCH_NUMBER := 7, TOTAL_STAKE := 100,
             CURRENT_STAKERS := 2, CURRENT_BALANCE := 100\<rparr>)
   \<and> monitor_active_validator validator_env (PStr ''NQ07'') state0 =
     Some (Inr (),
           state0\<lparr>clock := 5, VALIDATOR_ACTIVE := 0, EPOCH_NUMBER := 7, TOTAL_STAKE := 100,
                  CURRENT_STAKERS := 2, CURRENT_BALANCE := 100\<rparr>)"
proof -
  let ?A = "PStr ''NQ07''"
  let ?data = "\<lambda>b. [(''balance'', PInt 10000000), (''numStakers'', PInt 2),
                    (''retired'', PBool b)]"
  let ?kvs = "\<lambda>b. [(''data'', PDict (?data b)), (''metadata'', PNone)]"
  let ?s1 = "state0\<lparr>clock := 1, VALIDATOR_ACTIVE := 1\<rparr>"
  let ?s2 = "state0\<lparr>clock := 2, VALIDATOR_ACTIVE := 1, EPOCH_NUMBER := 7\<rparr>"
  let ?s3 = "state0\<lparr>clock := 3, VALIDATOR_ACTIVE := 1, EPOCH_NUMBER := 7, TOTAL_STAKE := 100,
                    CURRENT_STAKERS := 2\<rparr>"
  let ?s4 = "state0\<lparr>clock := 4, VALIDATOR_ACTIVE := 1, EPOCH_NUMBER := 7, TOTAL_STAKE := 100,
                    CURRENT_STAKERS := 2, CURRENT_BALANCE := 100\<rparr>"
  let ?s5 = "state0\<lparr>clock := 5, VALIDATOR_ACTIVE := 0, EPOCH_NUMBER := 7, TOTAL_STAKE := 100,
                    CURRENT_STAKERS := 2, CURRENT_BALANCE := 100\<rparr>"
  note ev = nimiq_request.simps validator_env_def validator_node_def rpc_ok_def state0_def
    py_get_def py_in_def py_subscript_def py_float_def float_of_int_small py_div_1e5_exact
  have r0: "nimiq_request validator_env ''getValidatorByAddress'' [?A] 3 state0 =
            (Inr (PDict (?kvs False)), state0\<lparr>clock := 1\<rparr>)"
    by (simp add: ev)
  have r4: "nimiq_request validator_env ''getValidatorByAddress'' [?A] 3 (state0\<lparr>clock := 4\<rparr>) =
            (Inr (PDict (?kvs True)), state0\<lparr>clock := 5\<rparr>)"
    by (simp add: ev)
  have r4': "nimiq_request validator_env ''getValidatorByAddress'' [?A] 3 ?s4 =
            (Inr (PDict (?kvs True)), ?s4\<lparr>clock := 5\<rparr>)"
    by (simp add: ev)
  have rd: "nimiq_request dead_env ''getValidatorByAddress'' [?A] 3 state0 =
            (Inr PNone, state0\<lparr>clock := 3\<rparr>)"
    by (simp add: nimiq_request.simps dead_env_def dead_node_def state0_def)
  have epoch: "get_epoch_number validator_env ?s1 = (Inr (), ?s2)"
    by (simp add: get_epoch_number_def ev)
  have stake: "get_stake_by_address validator_env ?A ?s2 =
               (Inr (PFloat 100, PInt 2, PBool False), ?s3)"
    by (simp add: get_stake_by_address_def ev)
  have balance: "set_balance_prometheus validator_env ?A ?s3 = (Inr (PFloat 100), ?s4)"
    by (simp add: set_balance_prometheus_def get_balance_def ev)
  note c9 = is_validator_active_monitor_exit
  have a0: "is_validator_active validator_env ?A state0 = (Inr True, ?s1)"
    using c9 [of validator_env ?A state0 "state0\<lparr>clock := 1\<rparr>" "?kvs False" "?data False" False] r0
    by (simp add: state0_def)
  have a4: "is_validator_active validator_env ?A (state0\<lparr>clock := 4\<rparr>) =
            (Inr False, state0\<lparr>clock := 5, VALIDATOR_ACTIVE := 0\<rparr>)"
    using c9 [of validator_env ?A "state0\<lparr>clock := 4\<rparr>" "state0\<lparr>clock := 5\<rparr>" "?kvs True" "?data True" True] r4
    by (simp add: state0_def)
  have a4': "is_validator_active validator_env ?A ?s4 = (Inr False, ?s5)"
    using c9 [of validator_env ?A ?s4 "?s4\<lparr>clock := 5\<rparr>" "?kvs True" "?data True" True] r4'
    by (simp add: state0_def)
  have ad: "is_validator_active dead_env ?A state0 = (Inr False, state0\<lparr>clock := 3\<rparr>)"
    using c9 [of dead_env ?A state0 "state0\<lparr>clock := 3\<rparr>"] rd by simp
  have m4: "monitor_active_validator validator_env ?A (state0\<lparr>clock := 4\<rparr>) =
            Some (Inr (), state0\<lparr>clock := 5, VALIDATOR_ACTIVE := 0\<rparr>)"
    using c9 [of validator_env ?A "state0\<lparr>clock := 4\<rparr>"
                 "state0\<lparr>clock := 5, VALIDATOR_ACTIVE := 0\<rparr>"] a4
    by simp
  have pass: "monitor_active_validator_iteration validator_env ?A state0 = (Inr False, ?s4)"
    using c9 [of validator_env ?A state0 ?s4] a0 epoch stake balance by blast
  have "monitor_active_validator validator_env ?A state0 =
        monitor_active_validator validator_env ?A ?s4"
    using c9 [of validator_env ?A state0 ?s4] pass by blast
  also have "\<dots> = Some (Inr (), ?s5)"
    using c9 [of validator_env ?A ?s4 ?s5] a4' by blast
  finally have m0: "monitor_active_validator validator_env ?A state0 = Some (Inr (), ?s5)" .
  from a0 a4 ad m4 pass m0 show ?thesis by simp
qed

subsection \<open>What a request changes\<close>

lemma clock_shift:
  "\<exists>k. x = (s\<lparr>clock := clock s + 1\<rparr>)\<lparr>clock := clock (s\<lparr>clock := clock s + 1\<rparr>) + k\<rparr> \<Longrightarrow>
   \<exists>k. x = s\<lparr>clock := clock s + k\<rparr>"
proof -
  assume "\<exists>k. x = (s\<lparr>clock := clock s + 1\<rparr>)\<lparr>clock := clock (s\<lparr>clock := clock s + 1\<rparr>) + k\<rparr>"
  then obtain k where "x = (s\<lparr>clock := clock s + 1\<rparr>)\<lparr>clock := clock (s\<lparr>clock := clock s + 1\<rparr>) + k\<rparr>" ..
  then have "x = s\<lparr>clock := clock s + (k + 1)\<rparr>" by simp
  then show ?thesis by blast
qed

lemma nimiq_request_frame:
  "\<exists>k. snd (nimiq_request e meth args retries s) = s\<lparr>clock := clock s + k\<rparr>"
proof (induction e meth args retries s rule: nimiq_request.induct)
  case (1 e meth args retries s)
  let ?s' = "s\<lparr>clock := clock s + 1\<rparr>"
  have now: "\<exists>k. ?s' = s\<lparr>clock := clock s + k\<rparr>" by blast
  show ?case
  proof (cases "retries > 0")
    case False
    then have "snd (nimiq_request e meth args retries s) = s\<lparr>clock := clock s + 0\<rparr>"
      by (simp add: nimiq_request.simps)
    then show ?thesis by blast
  next
    case True
    show ?thesis
    proof (cases "node e (clock s) meth args")
      case NoResponse
      have "nimiq_request e meth args retries s = nimiq_request e meth args (retries - 1) ?s'"
        using True NoResponse by (subst nimiq_request.simps) simp
      then show ?thesis using clock_shift [OF "1.IH"(1) [OF True NoResponse]] by simp
    next
      case (Response status body)
      show ?thesis
      proof (cases "400 \<le> status \<and> status < 600")
        case rejected: True
        have "nimiq_request e meth args retries s = nimiq_request e meth args (retries - 1) ?s'"
          using True Response rejected by (subst nimiq_request.simps) simp
        then show ?thesis using clock_shift [OF "1.IH"(2) [OF True Response rejected]] by simp
      next
        case accepted: False
        show ?thesis
        proof (cases body)
          case NotJson
          have "nimiq_request e meth args retries s = nimiq_request e meth args (retries - 1) ?s'"
            using True Response accepted NotJson by (subst nimiq_request.simps) simp
          then show ?thesis
            using clock_shift [OF "1.IH"(3) [OF True Response accepted NotJson]] by simp
        next
          case (Json j)
          have "snd (nimiq_request e meth args retries s) = ?s'"
            using True Response accepted Json
            by (subst nimiq_request.simps) (auto split: sum.splits)
          then show ?thesis using now by simp
        qed
      qed
    qed
  qed
qed

lemma nimiq_request_faucet_posts:
  "nimiq_request e method params retries s = (r, s1) \<Longrightarrow> faucet_posts s1 = faucet_posts s"
proof -
  assume a: "nimiq_request e method params retries s = (r, s1)"
  obtain k where "snd (nimiq_request e method params retries s) = s\<lparr>clock := clock s + k\<rparr>"
    using nimiq_request_frame by blast
  with a show ?thesis by simp
qed

subsection \<open>Funding\<close>

lemma needs_funds_no_result:
  "nimiq_request e ''getAccountByAddress'' [address] 3 s = (Inr PNone, s1) \<Longrightarrow>
   needs_funds e address s = (Inr False, s1)"
  by (simp add: needs_funds_def)

lemma funding_no_result:
  assumes "nimiq_request e ''getAccountByAddress'' [address] 3 s = (Inr PNone, s1)"
  shows "fst (activate_validator_funding e address s) = Inr ()"
    and "faucet_posts (snd (activate_validator_funding e address s)) = faucet_posts s"
  using needs_funds_no_result [OF assms] nimiq_request_faucet_posts [OF assms]
  by (simp_all add: activate_validator_funding_def)

lemma needs_funds_True_only:
  "fst (needs_funds e address s) = Inr True \<Longrightarrow>
   \<exists>kvs s1. nimiq_request e ''getAccountByAddress'' [address] 3 s = (Inr (PDict kvs), s1) \<and>
     (map_of kvs ''data'' = None \<or> map_of kvs ''data'' = Some PNone \<or>
      (\<exists>d. map_of kvs ''data'' = Some (PDict d) \<and>
           (map_of d ''balance'' = None \<or> (\<exists>b. map_of d ''balance'' = Some b \<and> py_eq_num b 0))))"
proof (cases "nimiq_request e ''getAccountByAddress'' [address] 3 s")
  case (Pair r s1)
  assume t: "fst (needs_funds e address s) = Inr True"
  show ?thesis
  proof (cases r)
    case (Inl err)
    with Pair t show ?thesis by (simp add: needs_funds_def)
  next
    case (Inr res)
    show ?thesis
    proof (cases res)
      case (PDict kvs)
      show ?thesis
      proof (cases "map_of kvs ''data''")
        case None
        with Pair Inr PDict show ?thesis by simp
      next
        case (Some data)
        with Pair Inr PDict t show ?thesis
          by (cases data)
            (auto simp: needs_funds_def py_get_def py_eq_num_def py_num_def
               split: option.splits if_splits)
      qed
    qed (use Pair Inr t in \<open>simp_all add: needs_funds_def py_get_def\<close>)
  qed
qed


lemma get_balance_faucet_posts:
  "get_balance e address s = (r, s1) \<Longrightarrow> faucet_posts s1 = faucet_posts s"
  by (auto simp: get_balance_def split: prod.splits sum.splits if_splits
        dest: nimiq_request_faucet_posts)

lemma send_raw_tx_faucet_posts:
  "send_raw_tx e tx_hash s = (r, s1) \<Longrightarrow> faucet_posts s1 = faucet_posts s"
  by (auto simp: send_raw_tx_def split: prod.splits sum.splits if_splits
        dest: nimiq_request_faucet_posts)

lemma wait_iteration_faucet_posts:
  "wait_for_enough_stake_iteration e ADDRESS s = (r, s1) \<Longrightarrow> faucet_posts s1 = faucet_posts s"
  by (auto simp: wait_for_enough_stake_iteration_def split: prod.splits sum.splits if_splits
        dest: get_balance_faucet_posts)

lemma wait_for_enough_stake_faucet_posts:
  assumes "wait_for_enough_stake e ADDRESS s = Some r"
  shows "faucet_posts (snd r) = faucet_posts s"
  by (rule wait_for_enough_stake.raw_induct
        [where P = "\<lambda>e ADDRESS s r. faucet_posts (snd r) = faucet_posts s", OF _ assms])
     (auto split: prod.splits sum.splits if_splits dest: wait_iteration_faucet_posts)

lemma activate_validator_faucet_posts:
  assumes "activate_validator e ADDRESS s = Some (r, s')"
  shows "faucet_posts s' = faucet_posts s \<or>
         faucet_posts s' = faucet_posts (snd (activate_validator_funding e ADDRESS s))"
  using assms
  by (auto simp: activate_validator_def split: prod.splits sum.splits option.splits
        dest!: nimiq_request_faucet_posts send_raw_tx_faucet_posts
               wait_for_enough_stake_faucet_posts)

text \<open>
  C10. When the \<^verbatim>\<open>getAccountByAddress\<close> call yields no result, \<^verbatim>\<open>needs_funds\<close> returns
  \<^verbatim>\<open>False\<close>, the funding step posts nothing to the faucet, and a run of
  \<^verbatim>\<open>activate_validator\<close> from there ends with the faucet never contacted. \<^verbatim>\<open>needs_funds\<close>
  returns \<^verbatim>\<open>True\<close> only when the call returned an object whose \<^verbatim>\<open>data\<close> is absent or
  \<^verbatim>\<open>None\<close>, or is an object whose balance, read with the default 0, equals zero.
\<close>

theorem needs_funds_node_unavailable:
  "(nimiq_request e ''getAccountByAddress'' [address] 3 s = (Inr PNone, s1) \<longrightarrow>
      needs_funds e address s = (Inr False, s1)
      \<and> faucet_posts (snd (activate_validator_funding e address s)) = faucet_posts s
      \<and> (\<forall>r s'. activate_validator e address s = Some (r, s') \<longrightarrow>
            faucet_posts s' = faucet_posts s))
   \<and> (fst (needs_funds e address s) = Inr True \<longrightarrow>
      (\<exists>kvs s1. nimiq_request e ''getAccountByAddress'' [address] 3 s = (Inr (PDict kvs), s1) \<and>
         (map_of kvs ''data'' = None \<or> map_of kvs ''data'' = Some PNone \<or>
          (\<exists>d. map_of kvs ''data'' = Some (PDict d) \<and>
             (map_of d ''balance'' = None \<or>
              (\<exists>b. map_of d ''balance'' = Some b \<and> py_eq_num b 0))))))"
proof -
  have "faucet_posts s' = faucet_posts s"
    if "nimiq_request e ''getAccountByAddress'' [address] 3 s = (Inr PNone, s1)"
      and "activate_validator e address s = Some (r, s')" for r s'
    using activate_validator_faucet_posts [OF that(2)] funding_no_result(2) [OF that(1)]
    by auto
  then show ?thesis
    using needs_funds_no_result [of e address s s1] funding_no_result(2) [of e address s s1]
      needs_funds_True_only [of e address s]
    by blast
qed


theorem needs_funds_node_unavailable_witness:
  "needs_funds dead_env (PStr ''NQ07'') state0 = (Inr False, state0\<lparr>clock := 3\<rparr>)
   \<and> faucet_posts (snd (activate_validator_funding dead_env (PStr ''NQ07'') state0)) = []
   \<and> fst (needs_funds unfunded_env (PStr ''NQ07'') state0) = Inr True
   \<and> (\<exists>kvs s1.
         nimiq_request unfunded_env ''getAccountByAddress'' [PStr ''NQ07''] 3 state0 =
           (Inr (PDict kvs), s1) \<and>
         (map_of kvs ''data'' = None \<or> map_of kvs ''data'' = Some PNone \<or>
          (\<exists>d. map_of kvs ''data'' = Some (PDict d) \<and>
             (map_of d ''balance'' = None \<or>
              (\<exists>b. map_of d ''balance'' = Some b \<and> py_eq_num b 0)))))"
proof -
  let ?A = "PStr ''NQ07''"
  have down: "nimiq_request dead_env ''getAccountByAddress'' [?A] 3 state0 =
              (Inr PNone, state0\<lparr>clock := 3\<rparr>)"
    by (simp add: nimiq_request.simps dead_env_def dead_node_def state0_def)
  have need: "fst (needs_funds unfunded_env ?A state0) = Inr True"
    by (simp add: needs_funds_def nimiq_request.simps unfunded_env_def unfunded_node_def
        rpc_ok_def state0_def py_get_def py_eq_num_def py_num_def)
  note c10 = needs_funds_node_unavailable
  from c10 [of dead_env ?A state0 "state0\<lparr>clock := 3\<rparr>"] down
  have "needs_funds dead_env ?A state0 = (Inr False, state0\<lparr>clock := 3\<rparr>)"
    and "faucet_posts (snd (activate_validator_funding dead_env ?A state0)) = []"
    by (simp_all add: state0_def)
  moreover from c10 [of unfunded_env ?A state0] need
  have "\<exists>kvs s1.
         nimiq_request unfunded_env ''getAccountByAddress'' [?A] 3 state0 =
           (Inr (PDict kvs), s1) \<and>
         (map_of kvs ''data'' = None \<or> map_of kvs ''data'' = Some PNone \<or>
          (\<exists>d. map_of kvs ''data'' = Some (PDict d) \<and>
             (map_of d ''balance'' = None \<or>
              (\<exists>b. map_of d ''balance'' = Some b \<and> py_eq_num b 0))))"
    by blast
  ultimately show ?thesis using need by blast
qed

subsection \<open>The stake wait and the balance gauge\<close>

lemma wait_iteration_break_iff:
  "wait_for_enough_stake_iteration e ADDRESS s = (Inr True, s') \<longleftrightarrow>
   (\<exists>balance nim s1.
      get_balance e ADDRESS s = (Inr balance, s1) \<and> py_div_1e5 balance = Inr nim \<and>
      100000 \<le> nim \<and> s' = s1\<lparr>CURRENT_BALANCE := nim\<rparr>)"
proof (cases "get_balance e ADDRESS s")
  case (Pair r s1)
  show ?thesis
  proof (cases r)
    case (Inl err)
    with Pair show ?thesis by (simp add: wait_for_enough_stake_iteration_def)
  next
    case (Inr balance)
    with Pair show ?thesis
      by (cases "py_div_1e5 balance")
        (auto simp: wait_for_enough_stake_iteration_def py_div_1e5_def)
  qed
qed

lemma py_div_1e5_reached:
  assumes "py_div_1e5 balance = Inr nim" "100000 \<le> nim"
  shows "(\<forall>b. balance = PInt b \<longrightarrow> 100000 * 100000 \<le> b) \<and>
         (\<forall>r. balance = PFloat r \<and> binary64 r = r \<longrightarrow> 100000 * 100000 \<le> r) \<and>
         (\<forall>t. balance \<noteq> PBool t)"
  using assms py_div_1e5_threshold_int [of _ nim] py_div_1e5_threshold_float [of _ nim]
    py_div_1e5_bool [of _ nim]
  by (cases balance) auto

lemma wait_continue:
  "wait_for_enough_stake_iteration e ADDRESS s = (Inr False, s1) \<Longrightarrow>
   wait_for_enough_stake e ADDRESS s = wait_for_enough_stake e ADDRESS s1"
  by (subst wait_for_enough_stake.simps) simp

lemma wait_break:
  "wait_for_enough_stake_iteration e ADDRESS s = (Inr True, s1) \<Longrightarrow>
   wait_for_enough_stake e ADDRESS s = Some (Inr (), s1)"
  by (subst wait_for_enough_stake.simps) simp

lemma wait_iteration_unavailable:
  "get_balance e ADDRESS s = (Inr PNone, s1) \<Longrightarrow>
   wait_for_enough_stake_iteration e ADDRESS s = (Inr False, s1)"
  by (simp add: wait_for_enough_stake_iteration_def)

lemma wait_iteration_int:
  "get_balance e ADDRESS s = (Inr (PInt raw), s1) \<Longrightarrow> py_div_1e5 (PInt raw) = Inr nim \<Longrightarrow>
   wait_for_enough_stake_iteration e ADDRESS s =
   (Inr (100000 * 100000 \<le> raw), s1\<lparr>CURRENT_BALANCE := nim\<rparr>)"
  using py_div_1e5_threshold_int [of raw nim]
  by (simp add: wait_for_enough_stake_iteration_def)

lemma wait_returns_after_break:
  assumes "wait_for_enough_stake e ADDRESS s = Some r"
  shows "fst r = Inr () \<longrightarrow>
         (\<exists>s0. loop_passes (wait_for_enough_stake_iteration e ADDRESS) s s0 \<and>
               wait_for_enough_stake_iteration e ADDRESS s0 = (Inr True, snd r))"
  by (rule wait_for_enough_stake.raw_induct
        [where P = "\<lambda>e ADDRESS s r. fst r = Inr () \<longrightarrow>
           (\<exists>s0. loop_passes (wait_for_enough_stake_iteration e ADDRESS) s s0 \<and>
                 wait_for_enough_stake_iteration e ADDRESS s0 = (Inr True, snd r))",
         OF _ assms])
     (auto split: prod.splits sum.splits if_splits intro: loop_passes.passes_none,
      blast intro: loop_passes.passes_more)

lemma wait_no_exit:
  assumes "\<And>s0. fst (wait_for_enough_stake_iteration e ADDRESS s0) = Inr False"
  shows "wait_for_enough_stake e ADDRESS s = None"
proof (cases "wait_for_enough_stake e ADDRESS s")
  case None
  then show ?thesis .
next
  case (Some r)
  have "(\<forall>s0. fst (wait_for_enough_stake_iteration e ADDRESS s0) = Inr False) \<longrightarrow> False"
    by (rule wait_for_enough_stake.raw_induct
          [where P = "\<lambda>e ADDRESS s r.
             (\<forall>s0. fst (wait_for_enough_stake_iteration e ADDRESS s0) = Inr False) \<longrightarrow> False",
           OF _ Some])
       (auto split: prod.splits sum.splits if_splits, (metis fst_conv sum.inject(2) sum.distinct(1))+)
  with assms show ?thesis by blast
qed

lemma get_balance_no_result:
  "nimiq_request e ''getAccountByAddress'' [address] 3 s = (Inr PNone, s1) \<Longrightarrow>
   get_balance e address s = (Inr PNone, s1)"
  by (simp add: get_balance_def)

lemma get_balance_data:
  "nimiq_request e ''getAccountByAddress'' [address] 3 s = (Inr (PDict kvs), s1) \<Longrightarrow>
   map_of kvs ''error'' = None \<Longrightarrow> map_of kvs ''data'' = Some (PDict d) \<Longrightarrow>
   map_of d ''balance'' = Some balance \<Longrightarrow>
   get_balance e address s = (Inr balance, s1)"
  by (simp add: get_balance_def py_in_def py_subscript_def)

lemma set_balance_prometheus_int:
  "get_balance e address s = (Inr (PInt raw), s1) \<Longrightarrow> py_div_1e5 (PInt raw) = Inr nim \<Longrightarrow>
   set_balance_prometheus e address s = (Inr (PFloat nim), s1\<lparr>CURRENT_BALANCE := nim\<rparr>)"
  by (simp add: set_balance_prometheus_def)

lemma set_balance_prometheus_overflow:
  "get_balance e address s = (Inr (PInt raw), s1) \<Longrightarrow> 2 ^ 1024 - 2 ^ 970 \<le> raw \<Longrightarrow>
   set_balance_prometheus e address s = (Inl OverflowError, s1)"
  by (simp add: set_balance_prometheus_def py_div_1e5_overflow)

text \<open>
  C5. \<^verbatim>\<open>wait_for_enough_stake\<close> returns only from a pass, reached through passes that
  did not break, in which the fetched balance divided by 1e5 is at least 100000, the
  value left in the gauge; the balance is then an integer of at least 100000 \<times> 100000
  smallest units, or a float of at least that value, and never a boolean. A pass in which
  the balance is unavailable, or an integer below that amount, is followed by another
  pass; an integer balance at or above it ends the wait, unless it is one of
  \<open>2 ^ 1024 - 2 ^ 970\<close> or more: the division is defined for every non-negative integer
  below that (and is the rounded quotient for one below \<open>2 ^ 53\<close> in magnitude), and raises
  \<^verbatim>\<open>OverflowError\<close> from there on, which is not a return. The loop has no other exit:
  when no pass reaches the threshold or raises, the function never returns.
\<close>

theorem wait_for_enough_stake_threshold:
  "(wait_for_enough_stake e ADDRESS s = Some (Inr (), s') \<longrightarrow>
      (\<exists>s0 s1 balance nim.
         loop_passes (wait_for_enough_stake_iteration e ADDRESS) s s0 \<and>
         get_balance e ADDRESS s0 = (Inr balance, s1) \<and> py_div_1e5 balance = Inr nim \<and>
         100000 \<le> nim \<and> s' = s1\<lparr>CURRENT_BALANCE := nim\<rparr> \<and>
         (\<forall>b. balance = PInt b \<longrightarrow> 100000 * 100000 \<le> b) \<and>
         (\<forall>r. balance = PFloat r \<and> binary64 r = r \<longrightarrow> 100000 * 100000 \<le> r) \<and>
         (\<forall>t. balance \<noteq> PBool t)))
   \<and> (get_balance e ADDRESS s = (Inr PNone, s1) \<longrightarrow>
        wait_for_enough_stake e ADDRESS s = wait_for_enough_stake e ADDRESS s1)
   \<and> (get_balance e ADDRESS s = (Inr (PInt b), s1) \<and> py_div_1e5 (PInt b) = Inr nim \<and>
        b < 100000 * 100000 \<longrightarrow>
        wait_for_enough_stake e ADDRESS s =
        wait_for_enough_stake e ADDRESS (s1\<lparr>CURRENT_BALANCE := nim\<rparr>))
   \<and> (get_balance e ADDRESS s = (Inr (PInt b), s1) \<and> py_div_1e5 (PInt b) = Inr nim \<and>
        100000 * 100000 \<le> b \<longrightarrow>
        wait_for_enough_stake e ADDRESS s = Some (Inr (), s1\<lparr>CURRENT_BALANCE := nim\<rparr>))
   \<and> (\<bar>b\<bar> < 2 ^ 53 \<longrightarrow> py_div_1e5 (PInt b) = Inr (binary64 (of_int b / 100000)))
   \<and> (0 \<le> b \<and> b < 2 ^ 1024 - 2 ^ 970 \<longrightarrow> (\<exists>nim. py_div_1e5 (PInt b) = Inr nim))
   \<and> (get_balance e ADDRESS s = (Inr (PInt b), s1) \<and> 2 ^ 1024 - 2 ^ 970 \<le> b \<longrightarrow>
        wait_for_enough_stake e ADDRESS s = Some (Inl OverflowError, s1))
   \<and> ((\<forall>s0. fst (wait_for_enough_stake_iteration e ADDRESS s0) = Inr False) \<longrightarrow>
        wait_for_enough_stake e ADDRESS s = None)"
proof -
  have returned: "\<exists>s0 s1 balance nim.
         loop_passes (wait_for_enough_stake_iteration e ADDRESS) s s0 \<and>
         get_balance e ADDRESS s0 = (Inr balance, s1) \<and> py_div_1e5 balance = Inr nim \<and>
         100000 \<le> nim \<and> s' = s1\<lparr>CURRENT_BALANCE := nim\<rparr> \<and>
         (\<forall>b. balance = PInt b \<longrightarrow> 100000 * 100000 \<le> b) \<and>
         (\<forall>r. balance = PFloat r \<and> binary64 r = r \<longrightarrow> 100000 * 100000 \<le> r) \<and>
         (\<forall>t. balance \<noteq> PBool t)"
    if "wait_for_enough_stake e ADDRESS s = Some (Inr (), s')"
  proof -
    from wait_returns_after_break [OF that]
    obtain s0 where passes: "loop_passes (wait_for_enough_stake_iteration e ADDRESS) s s0"
      and "wait_for_enough_stake_iteration e ADDRESS s0 = (Inr True, s')" by auto
    then obtain balance nim s1 where pass:
      "get_balance e ADDRESS s0 = (Inr balance, s1)" "py_div_1e5 balance = Inr nim"
      "100000 \<le> nim" "s' = s1\<lparr>CURRENT_BALANCE := nim\<rparr>"
      unfolding wait_iteration_break_iff by blast
    from py_div_1e5_reached [OF pass(2,3)] passes pass show ?thesis by blast
  qed
  have unavailable: "wait_for_enough_stake e ADDRESS s = wait_for_enough_stake e ADDRESS s1"
    if "get_balance e ADDRESS s = (Inr PNone, s1)"
    using wait_continue [OF wait_iteration_unavailable [OF that]] .
  have below: "wait_for_enough_stake e ADDRESS s =
        wait_for_enough_stake e ADDRESS (s1\<lparr>CURRENT_BALANCE := nim\<rparr>)"
    if "get_balance e ADDRESS s = (Inr (PInt b), s1)" "py_div_1e5 (PInt b) = Inr nim"
      "b < 100000 * 100000"
    using wait_iteration_int [OF that(1,2)] that(3) by (intro wait_continue) simp
  have reached: "wait_for_enough_stake e ADDRESS s = Some (Inr (), s1\<lparr>CURRENT_BALANCE := nim\<rparr>)"
    if "get_balance e ADDRESS s = (Inr (PInt b), s1)" "py_div_1e5 (PInt b) = Inr nim"
      "100000 * 100000 \<le> b"
    using wait_iteration_int [OF that(1,2)] that(3) by (intro wait_break) simp
  have overflow: "wait_for_enough_stake e ADDRESS s = Some (Inl OverflowError, s1)"
    if "get_balance e ADDRESS s = (Inr (PInt b), s1)" "2 ^ 1024 - 2 ^ 970 \<le> b"
    using that
    by (subst wait_for_enough_stake.simps)
      (simp add: wait_for_enough_stake_iteration_def py_div_1e5_overflow)
  show ?thesis
    using returned unavailable below reached overflow py_div_1e5_small [of b]
      py_div_1e5_defined [of b] wait_no_exit [of e ADDRESS s]
    by blast
qed

theorem wait_for_enough_stake_threshold_witness:
  "wait_for_enough_stake funding_env (PStr ''NQ07'') state0 =
     Some (Inr (), state0\<lparr>clock := 5, CURRENT_BALANCE := 100000\<rparr>)
   \<and> wait_for_enough_stake dead_env (PStr ''NQ07'') state0 = None"
proof -
  let ?A = "PStr ''NQ07''"
  let ?low = "binary64 (of_int 5 / 100000)"
  note c5 = wait_for_enough_stake_threshold
  note ev = get_balance_def nimiq_request.simps funding_env_def funding_node_def rpc_ok_def
    state0_def py_get_def py_in_def py_subscript_def error_message_def
  have g0: "get_balance funding_env ?A state0 = (Inr PNone, state0\<lparr>clock := 3\<rparr>)"
    by (simp add: ev)
  have g3: "get_balance funding_env ?A (state0\<lparr>clock := 3\<rparr>) =
            (Inr (PInt 5), state0\<lparr>clock := 4\<rparr>)"
    by (simp add: ev)
  have g4: "get_balance funding_env ?A (state0\<lparr>clock := 4, CURRENT_BALANCE := ?low\<rparr>) =
            (Inr (PInt 10000000000), state0\<lparr>clock := 5, CURRENT_BALANCE := ?low\<rparr>)"
    by (simp add: ev)
  have d5: "py_div_1e5 (PInt 5) = Inr ?low"
    using c5 [where b = 5] by simp
  have "wait_for_enough_stake funding_env ?A state0 =
        wait_for_enough_stake funding_env ?A (state0\<lparr>clock := 3\<rparr>)"
    using c5 [where e = funding_env and ADDRESS = ?A and s = state0
                and ?s1.0 = "state0\<lparr>clock := 3\<rparr>"] g0
    by blast
  also have "\<dots> = wait_for_enough_stake funding_env ?A
                      (state0\<lparr>clock := 4, CURRENT_BALANCE := ?low\<rparr>)"
    using c5 [where e = funding_env and ADDRESS = ?A and s = "state0\<lparr>clock := 3\<rparr>"
                and ?s1.0 = "state0\<lparr>clock := 4\<rparr>" and b = 5 and nim = ?low] g3 d5
    by simp
  also have "\<dots> = Some (Inr (), state0\<lparr>clock := 5, CURRENT_BALANCE := 100000\<rparr>)"
    using c5 [where e = funding_env and ADDRESS = ?A
                and s = "state0\<lparr>clock := 4, CURRENT_BALANCE := ?low\<rparr>"
                and ?s1.0 = "state0\<lparr>clock := 5, CURRENT_BALANCE := ?low\<rparr>"
                and b = 10000000000 and nim = 100000] g4 py_div_1e5_exact(1)
    by (simp add: state0_def)
  finally have funded: "wait_for_enough_stake funding_env ?A state0 =
        Some (Inr (), state0\<lparr>clock := 5, CURRENT_BALANCE := 100000\<rparr>)" .
  have down: "fst (wait_for_enough_stake_iteration dead_env ?A s0) = Inr False" for s0
  proof -
    have "nimiq_request dead_env ''getAccountByAddress'' [?A] (int 3) s0 =
          (Inr PNone, s0\<lparr>clock := clock s0 + 3\<rparr>)"
      by (rule nimiq_request_all_fail)
        (simp add: dead_env_def dead_node_def transport_failure_def)
    then show ?thesis
      by (simp add: wait_for_enough_stake_iteration_def get_balance_def)
  qed
  have "wait_for_enough_stake dead_env ?A state0 = None"
    using c5 [where e = dead_env and ADDRESS = ?A and s = state0] down by blast
  with funded show ?thesis by simp
qed

text \<open>
  C7, as the claim states it, fails at a raw balance of 1: the gauge is set to the double
  nearest to 1/100000, which is 5902958103587057 / \<open>2 ^ 69\<close> and not 1/100000. It fails
  at a raw balance of \<open>2 ^ 1024\<close> as well: the division raises \<^verbatim>\<open>OverflowError\<close> and no
  gauge is set.
\<close>

theorem current_balance_scaled_counterexample:
  "get_balance (answering_env (rpc_ok (PDict [(''balance'', PInt 1)]))) (PStr ''NQ07'') state0 =
     (Inr (PInt 1), state0\<lparr>clock := 1\<rparr>)
   \<and> CURRENT_BALANCE
         (snd (set_balance_prometheus (answering_env (rpc_ok (PDict [(''balance'', PInt 1)])))
                 (PStr ''NQ07'') state0)) =
       5902958103587057 / 2 ^ 69
   \<and> CURRENT_BALANCE
         (snd (set_balance_prometheus (answering_env (rpc_ok (PDict [(''balance'', PInt 1)])))
                 (PStr ''NQ07'') state0)) \<noteq>
       1 / 100000
   \<and> set_balance_prometheus (answering_env (rpc_ok (PDict [(''balance'', PInt (2 ^ 1024))])))
         (PStr ''NQ07'') state0 =
       (Inl OverflowError, state0\<lparr>clock := 1\<rparr>)"
proof -
  let ?A = "PStr ''NQ07''"
  have fetched: "get_balance (answering_env (rpc_ok (PDict [(''balance'', PInt raw)]))) ?A state0 =
                 (Inr (PInt raw), state0\<lparr>clock := 1\<rparr>)" for raw
    by (simp add: get_balance_def nimiq_request.simps answering_env_def rpc_ok_def state0_def
        py_get_def py_in_def py_subscript_def)
  have "py_div_1e5 (PInt 1) = Inr (5902958103587057 / 2 ^ 69)"
    using py_div_1e5_small [of 1] binary64_hundred_thousandth by simp
  from set_balance_prometheus_int [OF fetched this]
  have one: "CURRENT_BALANCE
         (snd (set_balance_prometheus (answering_env (rpc_ok (PDict [(''balance'', PInt 1)])))
                 ?A state0)) =
       5902958103587057 / 2 ^ 69"
    by simp
  have huge: "set_balance_prometheus (answering_env (rpc_ok (PDict [(''balance'', PInt (2 ^ 1024))])))
         ?A state0 =
       (Inl OverflowError, state0\<lparr>clock := 1\<rparr>)"
    by (rule set_balance_prometheus_overflow [OF fetched]) simp
  from fetched [of 1] one huge show ?thesis by simp
qed

text \<open>
  C7, amended. For every non-negative integer raw balance that \<^verbatim>\<open>get_balance\<close> fetches
  and whose conversion to a float does not overflow, that is for every one below
  \<open>2 ^ 1024 - 2 ^ 970\<close>, \<^verbatim>\<open>set_balance_prometheus\<close> and a pass of
  \<^verbatim>\<open>wait_for_enough_stake\<close> set the current-balance gauge to the float quotient of the
  balance by 1e5: the balance rounded to a double (a balance below \<open>2 ^ 53\<close> is one
  already), divided by 100000 and rounded to a double again, each rounding within a
  relative \<open>2 ^ 53\<close>-th of the exact value. A raw balance of 10,000,000 is published as
  exactly 100. A balance of \<open>2 ^ 1024 - 2 ^ 970\<close> or more raises \<^verbatim>\<open>OverflowError\<close> and
  sets no gauge. The raw balance is the \<^verbatim>\<open>balance\<close> entry of the \<^verbatim>\<open>data\<close> of a result
  without an \<^verbatim>\<open>error\<close> entry.
\<close>

theorem current_balance_binary64:
  "(get_balance e address s = (Inr (PInt raw), s1) \<and> 0 \<le> raw \<and> float_of_int raw = Inr x \<longrightarrow>
      set_balance_prometheus e address s =
        (Inr (PFloat (binary64 (x / 100000))), s1\<lparr>CURRENT_BALANCE := binary64 (x / 100000)\<rparr>)
      \<and> wait_for_enough_stake_iteration e address s =
        (Inr (100000 * 100000 \<le> raw), s1\<lparr>CURRENT_BALANCE := binary64 (x / 100000)\<rparr>)
      \<and> x = binary64 (of_int raw)
      \<and> \<bar>x - of_int raw\<bar> \<le> of_int raw / 2 ^ 53
      \<and> \<bar>binary64 (x / 100000) - x / 100000\<bar> \<le> x / 100000 / 2 ^ 53)
   \<and> (0 \<le> raw \<longrightarrow> ((\<exists>x. float_of_int raw = Inr x) \<longleftrightarrow> raw < 2 ^ 1024 - 2 ^ 970))
   \<and> (0 \<le> raw \<and> raw < 2 ^ 53 \<longrightarrow> float_of_int raw = Inr (of_int raw))
   \<and> (get_balance e address s = (Inr (PInt 10000000), s1) \<longrightarrow>
        CURRENT_BALANCE (snd (set_balance_prometheus e address s)) = 100
        \<and> CURRENT_BALANCE (snd (wait_for_enough_stake_iteration e address s)) = 100)
   \<and> (get_balance e address s = (Inr (PInt raw), s1) \<and> 2 ^ 1024 - 2 ^ 970 \<le> raw \<longrightarrow>
        set_balance_prometheus e address s = (Inl OverflowError, s1)
        \<and> wait_for_enough_stake_iteration e address s = (Inl OverflowError, s1))
   \<and> (nimiq_request e ''getAccountByAddress'' [address] 3 s = (Inr (PDict kvs), s1) \<and>
        map_of kvs ''error'' = None \<and> map_of kvs ''data'' = Some (PDict d) \<and>
        map_of d ''balance'' = Some (PInt raw) \<longrightarrow>
        get_balance e address s = (Inr (PInt raw), s1))"
proof -
  have published:
    "set_balance_prometheus e address s =
        (Inr (PFloat (binary64 (x / 100000))), s1\<lparr>CURRENT_BALANCE := binary64 (x / 100000)\<rparr>)
      \<and> wait_for_enough_stake_iteration e address s =
        (Inr (100000 * 100000 \<le> raw), s1\<lparr>CURRENT_BALANCE := binary64 (x / 100000)\<rparr>)
      \<and> x = binary64 (of_int raw)
      \<and> \<bar>x - of_int raw\<bar> \<le> of_int raw / 2 ^ 53
      \<and> \<bar>binary64 (x / 100000) - x / 100000\<bar> \<le> x / 100000 / 2 ^ 53"
    if fetched: "get_balance e address s = (Inr (PInt raw), s1)" and raw: "0 \<le> raw"
      and conv: "float_of_int raw = Inr x"
  proof -
    have quotient: "py_div_1e5 (PInt raw) = Inr (binary64 (x / 100000))"
      using conv by (simp add: py_div_1e5_def)
    have x: "x = binary64 (of_int raw)" by (rule float_of_int_value [OF conv])
    have bounds: "\<bar>x - of_int raw\<bar> \<le> of_int raw / 2 ^ 53
                  \<and> \<bar>binary64 (x / 100000) - x / 100000\<bar> \<le> x / 100000 / 2 ^ 53"
    proof (cases "raw = 0")
      case True
      then show ?thesis using x by (simp add: binary64_def)
    next
      case False
      with raw have one: "(1::rat) \<le> of_int raw" by simp
      have tiny: "(2::rat) powi (- 1022) \<le> 1 / 100000"
      proof -
        have "(2::rat) powi (- 1022) \<le> 2 powi (- 17)" by (rule power_int_increasing) simp_all
        also have "\<dots> \<le> 1 / 100000" by simp
        finally show ?thesis .
      qed
      have "binary64 1 = 1" using binary64_of_int [of 1] by simp
      then have x1: "1 \<le> x" unfolding x using one by (intro binary64_ge) simp_all
      have "\<bar>binary64 (of_int raw) - of_int raw\<bar> \<le> \<bar>of_int raw :: rat\<bar> / 2 ^ 53"
        using one tiny by (intro binary64_relative_error) linarith
      moreover have "\<bar>binary64 (x / 100000) - x / 100000\<bar> \<le> \<bar>x / 100000\<bar> / 2 ^ 53"
      proof (rule binary64_relative_error)
        have "(1::rat) / 100000 \<le> x / 100000" using x1 by (simp add: divide_right_mono)
        with tiny x1 show "2 powi (- 1022) \<le> \<bar>x / 100000\<bar>" by simp
      qed
      ultimately show ?thesis using x one x1 by simp
    qed
    from set_balance_prometheus_int [OF fetched quotient]
      wait_iteration_int [OF fetched quotient] x bounds
    show ?thesis by simp
  qed
  have exact: "float_of_int raw = Inr (of_int raw)" if "0 \<le> raw" "raw < 2 ^ 53"
    using that by (intro float_of_int_small) simp
  have hundred: "CURRENT_BALANCE (snd (set_balance_prometheus e address s)) = 100
        \<and> CURRENT_BALANCE (snd (wait_for_enough_stake_iteration e address s)) = 100"
    if "get_balance e address s = (Inr (PInt 10000000), s1)"
    using set_balance_prometheus_int [OF that py_div_1e5_exact(2)]
      wait_iteration_int [OF that py_div_1e5_exact(2)]
    by simp
  have overflow: "set_balance_prometheus e address s = (Inl OverflowError, s1)
        \<and> wait_for_enough_stake_iteration e address s = (Inl OverflowError, s1)"
    if "get_balance e address s = (Inr (PInt raw), s1)" "2 ^ 1024 - 2 ^ 970 \<le> raw"
    using that set_balance_prometheus_overflow [OF that]
    by (simp add: wait_for_enough_stake_iteration_def py_div_1e5_overflow)
  show ?thesis
    using published float_of_int_defined_iff [of raw] exact hundred overflow
      get_balance_data [of e address s kvs s1 d "PInt raw"]
    by blast
qed

theorem current_balance_binary64_witness:
  "set_balance_prometheus validator_env (PStr ''NQ07'') state0 =
     (Inr (PFloat 100), state0\<lparr>clock := 1, CURRENT_BALANCE := 100\<rparr>)
   \<and> wait_for_enough_stake_iteration validator_env (PStr ''NQ07'') state0 =
     (Inr False, state0\<lparr>clock := 1, CURRENT_BALANCE := 100\<rparr>)
   \<and> float_of_int 10000000 = Inr 10000000"
proof -
  let ?A = "PStr ''NQ07''"
  let ?d = "[(''balance'', PInt 10000000)]"
  let ?kvs = "[(''data'', PDict ?d), (''metadata'', PNone)]"
  note c7 = current_balance_binary64
    [where e = validator_env and address = ?A and s = state0 and raw = 10000000
       and x = 10000000 and ?s1.0 = "state0\<lparr>clock := 1\<rparr>" and kvs = ?kvs and d = ?d]
  have req: "nimiq_request validator_env ''getAccountByAddress'' [?A] 3 state0 =
             (Inr (PDict ?kvs), state0\<lparr>clock := 1\<rparr>)"
    by (simp add: nimiq_request.simps validator_env_def validator_node_def rpc_ok_def
        state0_def py_get_def)
  have conv: "float_of_int 10000000 = Inr 10000000"
    using c7 by simp
  have fetched: "get_balance validator_env ?A state0 =
                 (Inr (PInt 10000000), state0\<lparr>clock := 1\<rparr>)"
    using c7 req by simp
  have "binary64 100 = 100" using binary64_of_int [of 100] by simp
  with c7 fetched conv show ?thesis by simp
qed

subsection \<open>The consensus gate\<close>














subsection \<open>Runs on concrete nodes\<close>

lemmas py_ops = py_get_def py_in_def py_subscript_def py_truthy_def py_eq_num_def py_num_def
  py_div_1e5_exact float_of_int_small py_float_def error_message_def py_index_def

text \<open>
  C6, at a response that has no \<^verbatim>\<open>result\<close> entry: \<^verbatim>\<open>nimiq_request\<close> returns the default
  \<^verbatim>\<open>{}\<close> after one attempt, which is not \<^verbatim>\<open>None\<close>, so a caller such as \<^verbatim>\<open>needs_funds\<close>
  goes on as after a success. The \<^verbatim>\<open>ValueError\<close> is raised only for a \<^verbatim>\<open>result\<close> that is
  present and \<^verbatim>\<open>None\<close>, and it leaves the function.
\<close>

theorem nimiq_request_absent_result:
  "nimiq_request (answering_env (bare_response [])) ''getAccountByAddress'' [PStr ''NQ07''] 3 state0 =
     (Inr (PDict []), state0\<lparr>clock := 1\<rparr>)
   \<and> needs_funds (answering_env (bare_response [])) (PStr ''NQ07'') state0 =
     (Inr True, state0\<lparr>clock := 1\<rparr>)
   \<and> nimiq_request (answering_env (bare_response [(''result'', PNone)]))
       ''getAccountByAddress'' [PStr ''NQ07''] 3 state0 =
     (Inl ValueError, state0\<lparr>clock := 1\<rparr>)"
  by (simp add: needs_funds_def nimiq_request.simps answering_env_def bare_response_def state0_def py_ops)

lemma activation_steps:
  "get_private_key (activation_env c t) ''/keys/signing_key.txt'' = Inr (PStr ''5ae1'')"
  "get_vote_key (activation_env c t) ''/keys/vote_key.txt'' = Inr ''s3cr3t''"
  "get_private_key (activation_env c t) ''/keys/address.txt'' = Inr (PStr ''77f0'')"
  "activate_validator_funding (activation_env c t) (PStr ''NQ07'') state0 =
     (Inr (), state0\<lparr>clock := 1\<rparr>)"
  "nimiq_request (activation_env c t) ''importRawKey'' [PStr ''77f0'', PStr []] 3
     (state0\<lparr>clock := 1\<rparr>) =
     (Inr (PDict [(''data'', PStr ''NQ07''), (''metadata'', PNone)]), state0\<lparr>clock := 2\<rparr>)"
  "nimiq_request (activation_env c t) ''unlockAccount'' [PStr ''NQ07'', PStr [], PInt 0] 3
     (state0\<lparr>clock := 2\<rparr>) =
     (Inr (PDict [(''data'', PNone), (''metadata'', PNone)]), state0\<lparr>clock := 3\<rparr>)"
  by (simp_all add: get_private_key_def get_vote_key_def get_vote_key_lines_def key_files_def
      vote_key_file_def py_split_def py_strip_def py_isspace_def upt_rec
      activate_validator_funding_def needs_funds_def
      nimiq_request.simps activation_env_def activation_node_def rpc_ok_def state0_def py_ops)

lemma activation_wait:
  "wait_for_enough_stake (activation_env c t) (PStr ''NQ07'') (state0\<lparr>clock := 3\<rparr>) =
   Some (Inr (), state0\<lparr>clock := 4, CURRENT_BALANCE := 100000\<rparr>)"
  by (rule wait_break)
    (simp add: wait_for_enough_stake_iteration_def get_balance_def nimiq_request.simps
      activation_env_def activation_node_def rpc_ok_def state0_def py_ops)

lemma activation_created:
  "nimiq_request (activation_env (rpc_ok (PStr ''00ab'')) t) ''createNewValidatorTransaction''
     [PStr ''NQ07'', PStr ''NQ07'', PStr ''5ae1'', PStr ''s3cr3t'', PStr ''NQ07'', PStr [],
      PInt 500, PStr ''+0''] 3
     (state0\<lparr>clock := 4, CURRENT_BALANCE := 100000\<rparr>) =
     (Inr (PDict [(''data'', PStr ''00ab''), (''metadata'', PNone)]),
      state0\<lparr>clock := 5, CURRENT_BALANCE := 100000\<rparr>)"
  "py_get (PDict [(''data'', PStr ''00ab''), (''metadata'', PNone)]) ''data'' PNone =
     Inr (PStr ''00ab'')"
  by (simp_all add: nimiq_request.simps activation_env_def activation_node_def rpc_ok_def
      state0_def py_ops)

lemma activation_not_created:
  "nimiq_request (activation_env NoResponse t) ''createNewValidatorTransaction''
     [PStr ''NQ07'', PStr ''NQ07'', PStr ''5ae1'', PStr ''s3cr3t'', PStr ''NQ07'', PStr [],
      PInt 500, PStr ''+0''] 3
     (state0\<lparr>clock := 4, CURRENT_BALANCE := 100000\<rparr>) =
     (Inr PNone, state0\<lparr>clock := 7, CURRENT_BALANCE := 100000\<rparr>)"
  "py_get PNone ''data'' PNone = Inl AttributeError"
  by (simp_all add: nimiq_request.simps activation_env_def activation_node_def
      state0_def py_ops)

lemma activation_sent:
  "send_raw_tx (activation_env c NoResponse) (PStr ''00ab'')
     (state0\<lparr>clock := 5, CURRENT_BALANCE := 100000\<rparr>) =
     (Inr (), state0\<lparr>clock := 8, CURRENT_BALANCE := 100000\<rparr>)"
  "send_raw_tx (activation_env c rejected_tx) (PStr ''00ab'')
     (state0\<lparr>clock := 5, CURRENT_BALANCE := 100000\<rparr>) =
     (Inr (), state0\<lparr>clock := 6, CURRENT_BALANCE := 100000\<rparr>)"
  by (simp_all add: send_raw_tx_def nimiq_request.simps activation_env_def activation_node_def
      bare_response_def rejected_tx_def state0_def py_ops)

text \<open>
  C3, at a send that fails and at a send whose result carries an \<^verbatim>\<open>error\<close> entry: with
  \<^verbatim>\<open>sendRawTransaction\<close> unanswered three times, and with the transaction rejected,
  \<^verbatim>\<open>activate_validator\<close> still returns \<^verbatim>\<open>True\<close> with the gauge of the address raised from
  0 to 1.
\<close>

theorem activate_validator_counts_failed_send:
  "nimiq_request (activation_env (rpc_ok (PStr ''00ab'')) NoResponse) ''sendRawTransaction''
       [PStr ''00ab''] 3 (state0\<lparr>clock := 5, CURRENT_BALANCE := 100000\<rparr>) =
     (Inr PNone, state0\<lparr>clock := 8, CURRENT_BALANCE := 100000\<rparr>)
   \<and> activate_validator (activation_env (rpc_ok (PStr ''00ab'')) NoResponse) (PStr ''NQ07'') state0 =
     Some (Inr True,
           state0\<lparr>clock := 8, CURRENT_BALANCE := 100000,
                  ACTIVATED_AMOUNT := (\<lambda>a. 0)(PStr ''NQ07'' := 1)\<rparr>)
   \<and> activate_validator (activation_env (rpc_ok (PStr ''00ab'')) rejected_tx) (PStr ''NQ07'') state0 =
     Some (Inr True,
           state0\<lparr>clock := 6, CURRENT_BALANCE := 100000,
                  ACTIVATED_AMOUNT := (\<lambda>a. 0)(PStr ''NQ07'' := 1)\<rparr>)"
proof -
  have failed: "nimiq_request (activation_env (rpc_ok (PStr ''00ab'')) NoResponse)
       ''sendRawTransaction'' [PStr ''00ab''] 3 (state0\<lparr>clock := 5, CURRENT_BALANCE := 100000\<rparr>) =
     (Inr PNone, state0\<lparr>clock := 8, CURRENT_BALANCE := 100000\<rparr>)"
    by (simp add: nimiq_request.simps activation_env_def activation_node_def state0_def)
  have gauge: "ACTIVATED_AMOUNT (state0\<lparr>clock := k, CURRENT_BALANCE := 100000\<rparr>) = (\<lambda>a. 0)" for k
    by (simp add: state0_def)
  have lost: "activate_validator (activation_env (rpc_ok (PStr ''00ab'')) NoResponse) (PStr ''NQ07'') state0 =
     Some (Inr True,
           state0\<lparr>clock := 8, CURRENT_BALANCE := 100000,
                  ACTIVATED_AMOUNT := (\<lambda>a. 0)(PStr ''NQ07'' := 1)\<rparr>)"
    unfolding activate_validator_def
    by (simp only: activation_steps activation_wait activation_created activation_sent
        sum.case prod.case option.case gauge) (simp add: binary64_one)
  have rejected: "activate_validator (activation_env (rpc_ok (PStr ''00ab'')) rejected_tx) (PStr ''NQ07'') state0 =
     Some (Inr True,
           state0\<lparr>clock := 6, CURRENT_BALANCE := 100000,
                  ACTIVATED_AMOUNT := (\<lambda>a. 0)(PStr ''NQ07'' := 1)\<rparr>)"
    unfolding activate_validator_def
    by (simp only: activation_steps activation_wait activation_created activation_sent
        sum.case prod.case option.case gauge) (simp add: binary64_one)
  from failed lost rejected show ?thesis by simp
qed


lemma flaky_steps:
  "get_address flaky_env state0 = (Inr (PStr ''NQ07''), state0\<lparr>clock := 1\<rparr>)"
  "check_consensus flaky_env (state0\<lparr>clock := 1\<rparr>) = Some (Inr True, state0\<lparr>clock := 4\<rparr>)"
  "is_validator_active flaky_env (PStr ''NQ07'') (state0\<lparr>clock := 4\<rparr>) =
     (Inr True, state0\<lparr>clock := 5, VALIDATOR_ACTIVE := 1\<rparr>)"
  "monitor_active_validator_iteration flaky_env (PStr ''NQ07'')
     (state0\<lparr>clock := 5, VALIDATOR_ACTIVE := 1\<rparr>) =
     (Inl UnboundLocalError, state0\<lparr>clock := 10, VALIDATOR_ACTIVE := 1, EPOCH_NUMBER := 7\<rparr>)"
  by (simp_all add: get_address_def check_consensus_def check_consensus_loop.simps
      check_consensus_iteration_def consensus_observed_def is_validator_active_def
      monitor_active_validator_iteration_def get_epoch_number_def get_stake_by_address_def
      nimiq_request.simps flaky_env_def flaky_node_def rpc_ok_def state0_def py_ops)

text \<open>
  C4, at steady-state failures. When the node stops answering \<^verbatim>\<open>getValidatorByAddress\<close>
  during monitoring, \<^verbatim>\<open>get_stake_by_address\<close> raises \<^verbatim>\<open>UnboundLocalError\<close> and the main
  program ends with it. A \<^verbatim>\<open>createNewValidatorTransaction\<close> without result makes
  \<^verbatim>\<open>activate_validator\<close> raise \<^verbatim>\<open>AttributeError\<close>; a result without \<^verbatim>\<open>data\<close> makes
  \<^verbatim>\<open>get_epoch_number\<close> raise \<^verbatim>\<open>KeyError\<close>; a \<^verbatim>\<open>data\<close> without \<^verbatim>\<open>balance\<close> makes the
  stake wait raise \<^verbatim>\<open>KeyError\<close>.
\<close>

theorem steady_state_failures_raise:
  "main flaky_env state0 =
     Some (Inl UnboundLocalError, state0\<lparr>clock := 10, VALIDATOR_ACTIVE := 1, EPOCH_NUMBER := 7\<rparr>)
   \<and> get_stake_by_address dead_env (PStr ''NQ07'') state0 =
     (Inl UnboundLocalError, state0\<lparr>clock := 3\<rparr>)
   \<and> activate_validator (activation_env NoResponse NoResponse) (PStr ''NQ07'') state0 =
     Some (Inl AttributeError, state0\<lparr>clock := 7, CURRENT_BALANCE := 100000\<rparr>)
   \<and> get_epoch_number (answering_env (bare_response [(''result'', PDict [(''metadata'', PNone)])]))
       state0 =
     (Inl KeyError, state0\<lparr>clock := 1\<rparr>)
   \<and> wait_for_enough_stake (answering_env (rpc_ok (PDict []))) (PStr ''NQ07'') state0 =
     Some (Inl KeyError, state0\<lparr>clock := 1\<rparr>)"
proof -
  have monitoring: "monitor_active_validator flaky_env (PStr ''NQ07'')
        (state0\<lparr>clock := 5, VALIDATOR_ACTIVE := 1\<rparr>) =
      Some (Inl UnboundLocalError, state0\<lparr>clock := 10, VALIDATOR_ACTIVE := 1, EPOCH_NUMBER := 7\<rparr>)"
    by (subst monitor_active_validator.simps) (simp only: flaky_steps prod.case sum.case)
  have cycle: "check_and_activate_validator flaky_env (PStr ''NQ07'') (state0\<lparr>clock := 4\<rparr>) =
      Some (Inl UnboundLocalError, state0\<lparr>clock := 10, VALIDATOR_ACTIVE := 1, EPOCH_NUMBER := 7\<rparr>)"
    unfolding check_and_activate_validator_def
    by (simp only: flaky_steps monitoring prod.case sum.case if_True)
  have scheduler: "main_loop flaky_env (PStr ''NQ07'') (state0\<lparr>clock := 1\<rparr>) =
      Some (Inl UnboundLocalError, state0\<lparr>clock := 10, VALIDATOR_ACTIVE := 1, EPOCH_NUMBER := 7\<rparr>)"
    by (subst main_loop.simps)
      (simp only: flaky_steps cycle prod.case sum.case option.case if_True)
  have process: "main flaky_env state0 =
      Some (Inl UnboundLocalError, state0\<lparr>clock := 10, VALIDATOR_ACTIVE := 1, EPOCH_NUMBER := 7\<rparr>)"
    unfolding main_def by (simp only: flaky_steps scheduler prod.case sum.case)
  have stake: "get_stake_by_address dead_env (PStr ''NQ07'') state0 =
      (Inl UnboundLocalError, state0\<lparr>clock := 3\<rparr>)"
    by (simp add: get_stake_by_address_def nimiq_request.simps dead_env_def dead_node_def state0_def)
  have activation: "activate_validator (activation_env NoResponse NoResponse) (PStr ''NQ07'') state0 =
      Some (Inl AttributeError, state0\<lparr>clock := 7, CURRENT_BALANCE := 100000\<rparr>)"
    unfolding activate_validator_def
    by (simp only: activation_steps activation_wait activation_not_created
        sum.case prod.case option.case)
  have epoch: "get_epoch_number
        (answering_env (bare_response [(''result'', PDict [(''metadata'', PNone)])])) state0 =
      (Inl KeyError, state0\<lparr>clock := 1\<rparr>)"
    by (simp add: get_epoch_number_def nimiq_request.simps answering_env_def bare_response_def
        state0_def py_ops)
  have balance: "wait_for_enough_stake (answering_env (rpc_ok (PDict []))) (PStr ''NQ07'') state0 =
      Some (Inl KeyError, state0\<lparr>clock := 1\<rparr>)"
    by (subst wait_for_enough_stake.simps)
      (simp add: wait_for_enough_stake_iteration_def get_balance_def nimiq_request.simps
        answering_env_def rpc_ok_def state0_def py_ops)
  from process stake activation epoch balance show ?thesis by simp
qed

end
